theory Spec2Isabelle
  imports
    Complex_Main
    "HOL-Library.Word"
    "HOL-Library.AList"
    "HOL-Library.Finite_Map"
    "HOL-Library.Sublist"
    "HOL-Library.List_Lexorder"
    "HOL-Library.Char_ord"
begin

unbundle bit_operations_syntax

section \<open>Go strings\<close>

text \<open>
  A Go string is a sequence of bytes; it is modelled as \<^typ>\<open>string\<close>, one \<^typ>\<open>char\<close> per
  byte. The functions of package \<open>strings\<close> that \<open>core/mcp.go\<close> calls are written out here.
  \<open>ToLower\<close> and \<open>TrimSpace\<close> follow Go on ASCII text: bytes outside ASCII are left as
  they are (Go also maps the upper-case letters and trims the white space of the rest of
  Unicode).
\<close>

definition is_upper :: "char \<Rightarrow> bool" where
  "is_upper c = (CHR ''A'' \<le> c \<and> c \<le> CHR ''Z'')"

definition to_lower_char :: "char \<Rightarrow> char" where
  "to_lower_char c = (if is_upper c then char_of (of_char c + (32::nat)) else c)"

definition strings_ToLower :: "string \<Rightarrow> string" where
  "strings_ToLower s = map to_lower_char s"

definition is_space :: "char \<Rightarrow> bool" where
  "is_space c = (c = CHR '' '' \<or> (CHR 0x09 \<le> c \<and> c \<le> CHR 0x0D))"

definition trim_by :: "(char \<Rightarrow> bool) \<Rightarrow> string \<Rightarrow> string" where
  "trim_by p s = rev (dropWhile p (rev (dropWhile p s)))"

definition strings_TrimSpace :: "string \<Rightarrow> string" where
  "strings_TrimSpace s = trim_by is_space s"

definition strings_Trim :: "string \<Rightarrow> string \<Rightarrow> string" where
  "strings_Trim s cutset = trim_by (\<lambda>c. c \<in> set cutset) s"

definition strings_HasPrefix :: "string \<Rightarrow> string \<Rightarrow> bool" where
  "strings_HasPrefix s p = (take (length p) s = p)"

definition strings_HasSuffix :: "string \<Rightarrow> string \<Rightarrow> bool" where
  "strings_HasSuffix s p = (length p \<le> length s \<and> drop (length s - length p) s = p)"

text \<open>\<open>strings.Index\<close>: the position of the first occurrence, \<open>None\<close> for Go's \<open>-1\<close>.\<close>

fun strings_Index :: "string \<Rightarrow> string \<Rightarrow> nat option" where
  "strings_Index [] sep = (if sep = [] then Some 0 else None)"
| "strings_Index (c # cs) sep =
     (if strings_HasPrefix (c # cs) sep then Some 0
      else map_option Suc (strings_Index cs sep))"

definition strings_Contains :: "string \<Rightarrow> string \<Rightarrow> bool" where
  "strings_Contains s sub = (strings_Index s sub \<noteq> None)"

lemma strings_Index_bound:
  "strings_Index s sep = Some m \<Longrightarrow> m + length sep \<le> length s"
proof (induction s arbitrary: m)
  case Nil
  then show ?case by (simp split: if_splits)
next
  case (Cons c cs)
  show ?case
  proof (cases "strings_HasPrefix (c # cs) sep")
    case True
    then have "length (take (length sep) (c # cs)) = length sep"
      by (simp only: strings_HasPrefix_def)
    then have "length sep \<le> length (c # cs)"
      by (simp only: length_take)
    with True Cons.prems show ?thesis by simp
  next
    case False
    with Cons.prems obtain m' where "strings_Index cs sep = Some m'" "m = Suc m'"
      by auto
    with Cons.IH show ?thesis by simp
  qed
qed

text \<open>
  \<open>strings.Split\<close> cuts at the occurrences of the separator, found from the left and not
  overlapping. With an empty separator Go splits after every UTF-8 sequence, which for
  ASCII text is after every byte.
\<close>

function strings_Split :: "string \<Rightarrow> string \<Rightarrow> string list" where
  "strings_Split s sep =
     (if sep = [] then map (\<lambda>c. [c]) s
      else case strings_Index s sep of
             None \<Rightarrow> [s]
           | Some m \<Rightarrow> take m s # strings_Split (drop (m + length sep) s) sep)"
  by pat_completeness auto
termination
proof (relation "measure (\<lambda>(s, sep). length s)")
  show "wf (measure (\<lambda>(s, sep). length s))" by simp
next
  fix s sep :: string and m :: nat
  assume "sep \<noteq> []" and "strings_Index s sep = Some m"
  then have "m + length sep \<le> length s" and "0 < length sep"
    using strings_Index_bound by auto
  then have "length s - (m + length sep) < length s"
    by arith
  then show "((drop (m + length sep) s, sep), (s, sep)) \<in> measure (\<lambda>(s, sep). length s)"
    by simp
qed

declare strings_Split.simps [simp del]

text \<open>\<open>strings.SplitN(s, sep, n)\<close> for \<open>n \<ge> 0\<close> and a separator that is not empty.\<close>

fun strings_SplitN :: "string \<Rightarrow> string \<Rightarrow> nat \<Rightarrow> string list" where
  "strings_SplitN s sep 0 = []"
| "strings_SplitN s sep (Suc 0) = [s]"
| "strings_SplitN s sep (Suc (Suc n)) =
     (case strings_Index s sep of
        None \<Rightarrow> [s]
      | Some m \<Rightarrow> take m s # strings_SplitN (drop (m + length sep) s) sep (Suc n))"

section \<open>SHA-256 and hexadecimal encoding\<close>

text \<open>
  \<open>generateArgHash\<close> feeds bytes to \<open>crypto/sha256\<close> and prints the digest with
  \<open>encoding/hex\<close>. Both are written out (FIPS 180-4) so that a digest can be computed.
  The round constants and the initial hash value are given in decimal.
\<close>

type_synonym u8 = "8 word"
type_synonym u32 = "32 word"

definition rotr :: "nat \<Rightarrow> u32 \<Rightarrow> u32" where
  "rotr n x = (drop_bit n x) OR (push_bit (32 - n) x)"

definition sha_K :: "u32 list" where
  "sha_K = [
   1116352408, 1899447441, 3049323471, 3921009573, 961987163, 1508970993, 2453635748, 2870763221,
   3624381080, 310598401, 607225278, 1426881987, 1925078388, 2162078206, 2614888103, 3248222580,
   3835390401, 4022224774, 264347078, 604807628, 770255983, 1249150122, 1555081692, 1996064986,
   2554220882, 2821834349, 2952996808, 3210313671, 3336571891, 3584528711, 113926993, 338241895,
   666307205, 773529912, 1294757372, 1396182291, 1695183700, 1986661051, 2177026350, 2456956037,
   2730485921, 2820302411, 3259730800, 3345764771, 3516065817, 3600352804, 4094571909, 275423344,
   430227734, 506948616, 659060556, 883997877, 958139571, 1322822218, 1537002063, 1747873779,
   1955562222, 2024104815, 2227730452, 2361852424, 2428436474, 2756734187, 3204031479, 3329325298]"

definition sha_H0 :: "u32 list" where
  "sha_H0 = [1779033703, 3144134277, 1013904242, 2773480762,
             1359893119, 2600822924, 528734635, 1541459225]"

definition be64 :: "64 word \<Rightarrow> u8 list" where
  "be64 x = map (\<lambda>i. ucast (drop_bit (8 * i) x)) [7, 6, 5, 4, 3, 2, 1, 0]"

definition be32 :: "u32 \<Rightarrow> u8 list" where
  "be32 x = map (\<lambda>i. ucast (drop_bit (8 * i) x)) [3, 2, 1, 0]"

text \<open>Padding: a one bit, zeros up to 56 modulo 64 bytes, the length in bits on 8 bytes.\<close>

definition sha_pad :: "u8 list \<Rightarrow> u8 list" where
  "sha_pad bs = bs @ 0x80 # replicate ((119 - length bs mod 64) mod 64) 0
                  @ be64 (word_of_nat (8 * length bs))"

fun be_words :: "u8 list \<Rightarrow> u32 list" where
  "be_words (a # b # c # d # r) =
     (push_bit 24 (ucast a) OR push_bit 16 (ucast b) OR push_bit 8 (ucast c) OR ucast d)
       # be_words r"
| "be_words _ = []"

definition ssig0 :: "u32 \<Rightarrow> u32" where
  "ssig0 x = rotr 7 x XOR rotr 18 x XOR drop_bit 3 x"

definition ssig1 :: "u32 \<Rightarrow> u32" where
  "ssig1 x = rotr 17 x XOR rotr 19 x XOR drop_bit 10 x"

definition bsig0 :: "u32 \<Rightarrow> u32" where
  "bsig0 x = rotr 2 x XOR rotr 13 x XOR rotr 22 x"

definition bsig1 :: "u32 \<Rightarrow> u32" where
  "bsig1 x = rotr 6 x XOR rotr 11 x XOR rotr 25 x"

definition ch :: "u32 \<Rightarrow> u32 \<Rightarrow> u32 \<Rightarrow> u32" where
  "ch e f g = (e AND f) XOR (NOT e AND g)"

definition maj :: "u32 \<Rightarrow> u32 \<Rightarrow> u32 \<Rightarrow> u32" where
  "maj a b c = (a AND b) XOR (a AND c) XOR (b AND c)"

fun next_vars :: "u32 \<Rightarrow> u32 \<Rightarrow> u32 list \<Rightarrow> u32 list" where
  "next_vars t1 t2 [a, b, c, d, e, f, g, h] = [t1 + t2, a, b, c, d + t1, e, f, g]"
| "next_vars t1 t2 v = v"

fun temp1 :: "u32 \<Rightarrow> u32 \<Rightarrow> u32 list \<Rightarrow> u32" where
  "temp1 k w [a, b, c, d, e, f, g, h] = h + bsig1 e + ch e f g + k + w"
| "temp1 k w v = 0"

fun temp2 :: "u32 list \<Rightarrow> u32" where
  "temp2 (a # b # c # v) = bsig0 a + maj a b c"
| "temp2 v = 0"

text \<open>The message schedule is kept as a window of the sixteen words still needed.\<close>

fun next_w :: "u32 list \<Rightarrow> u32 list" where
  "next_w [w0, w1, w2, w3, w4, w5, w6, w7, w8, w9, w10, w11, w12, w13, w14, w15] =
     [w1, w2, w3, w4, w5, w6, w7, w8, w9, w10, w11, w12, w13, w14, w15,
      ssig1 w14 + w9 + ssig0 w1 + w0]"
| "next_w w = w"

fun sha_round :: "u32 list \<times> u32 list \<Rightarrow> u32 \<Rightarrow> u32 list \<times> u32 list" where
  "sha_round (w, v) k = (next_w w, next_vars (temp1 k (hd w) v) (temp2 v) v)"

definition sha_block :: "u32 list \<Rightarrow> u8 list \<Rightarrow> u32 list" where
  "sha_block hs blk = map2 (+) hs (snd (foldl sha_round (be_words blk, hs) sha_K))"

fun sha_blocks :: "u32 list \<Rightarrow> u8 list \<Rightarrow> nat \<Rightarrow> u32 list" where
  "sha_blocks hs p 0 = hs"
| "sha_blocks hs p (Suc n) = sha_blocks (sha_block hs (take 64 p)) (drop 64 p) n"

definition sha256_Sum :: "u8 list \<Rightarrow> u8 list" where
  "sha256_Sum bs =
     concat (map be32 (sha_blocks sha_H0 (sha_pad bs) (length (sha_pad bs) div 64)))"

definition hexdigit :: "u8 \<Rightarrow> char" where
  "hexdigit n = ''0123456789abcdef'' ! unat n"

definition hex_byte :: "u8 \<Rightarrow> string" where
  "hex_byte b = [hexdigit (drop_bit 4 b), hexdigit (b AND 0x0f)]"

definition hex_EncodeToString :: "u8 list \<Rightarrow> string" where
  "hex_EncodeToString bs = concat (map hex_byte bs)"

definition bytes_of :: "string \<Rightarrow> u8 list" where
  "bytes_of s = map of_char s"

section \<open>Cache keys (core/mcp.go, section 10)\<close>

text \<open>
  A Go \<open>map[string]string\<close> is modelled as the list of its entries, in the order in
  which \<open>range\<close> visits them. Go leaves that order open; the keys of a map are distinct.
  Reading a key that is absent gives the empty string.
\<close>

type_synonym gomap = "(string \<times> string) list"

definition map_index :: "gomap \<Rightarrow> string \<Rightarrow> string" where
  "map_index m k = (case map_of m k of None \<Rightarrow> [] | Some v \<Rightarrow> v)"

record MCPCacheKey =
  key_ToolName :: string
  key_ServerName :: string
  key_Args :: gomap
  key_Hash :: string

definition normalizeArgs :: "gomap \<Rightarrow> gomap" where
  "normalizeArgs args =
     fold (\<lambda>(k, v) normalized.
             AList.update (strings_ToLower (strings_TrimSpace k)) (strings_TrimSpace v) normalized)
          args []"

text \<open>The bytes written to the hash, one \<open>k=v|\<close> per key in sorted order.\<close>

definition hash_input :: "gomap \<Rightarrow> string" where
  "hash_input args = concat (map (\<lambda>k. k @ ''='' @ map_index args k @ ''|'') (sort (map fst args)))"

definition generateArgHash :: "gomap \<Rightarrow> string" where
  "generateArgHash args = take 16 (hex_EncodeToString (sha256_Sum (bytes_of (hash_input args))))"

definition GenerateCacheKey :: "string \<Rightarrow> string \<Rightarrow> gomap \<Rightarrow> MCPCacheKey" where
  "GenerateCacheKey toolName serverName args =
     \<lparr> key_ToolName = toolName, key_ServerName = serverName,
       key_Args = normalizeArgs args, key_Hash = generateArgHash args \<rparr>"

definition keyToString :: "MCPCacheKey \<Rightarrow> string" where
  "keyToString key = key_ToolName key @ '':'' @ key_ServerName key @ '':'' @ key_Hash key"

section \<open>Results, cache entries and configuration (core/mcp.go, section 3)\<close>

text \<open>
  A \<open>time.Time\<close> is an instant in nanoseconds and a \<open>time.Duration\<close> a number of
  nanoseconds, both \<^typ>\<open>int\<close>; \<open>time.Since(t)\<close> at the instant \<open>now\<close> is \<open>now - t\<close>.
  The \<open>Metadata\<close> maps of \<open>MCPContent\<close> and \<open>MCPCachedResult\<close> are never filled by this
  code and are left out. An \<open>error\<close> is its message.
\<close>

type_synonym error = string

record MCPContent =
  c_Type :: string
  c_Text :: string
  c_Data :: string
  c_MimeType :: string

record MCPToolResult =
  res_ToolName :: string
  res_ServerName :: string
  res_Success :: bool
  res_Content :: "MCPContent list"
  res_Error :: string
  res_Duration :: int

text \<open>The zero value \<open>MCPToolResult{}\<close>.\<close>

definition MCPToolResult_zero :: MCPToolResult where
  "MCPToolResult_zero =
     \<lparr> res_ToolName = [], res_ServerName = [], res_Success = False,
       res_Content = [], res_Error = [], res_Duration = 0 \<rparr>"

record 'v MCPToolExecution =
  ex_ToolName :: string
  ex_Arguments :: "(string \<times> 'v) list"
  ex_ServerName :: string

record MCPCachedResult =
  cr_Key :: MCPCacheKey
  cr_Result :: MCPToolResult
  cr_Timestamp :: int
  cr_TTL :: int
  cr_AccessCount :: int

record MCPCacheStats =
  st_TotalKeys :: int
  st_HitCount :: int
  st_MissCount :: int
  st_HitRate :: real
  st_EvictionCount :: int
  st_TotalSize :: int
  st_AverageLatency :: int
  st_LastCleanup :: int

record MCPCacheConfig =
  cfg_Enabled :: bool
  cfg_DefaultTTL :: int
  cfg_MaxSize :: int
  cfg_MaxKeys :: int
  cfg_EvictionPolicy :: string
  cfg_CleanupInterval :: int
  cfg_ToolTTLs :: "(string \<times> int) list"
  cfg_Backend :: string
  cfg_BackendConfig :: gomap

definition time_Minute :: int where
  "time_Minute = 60000000000"

definition DefaultMCPCacheConfig :: MCPCacheConfig where
  "DefaultMCPCacheConfig =
     \<lparr> cfg_Enabled = True,
       cfg_DefaultTTL = 15 * time_Minute,
       cfg_MaxSize = 100,
       cfg_MaxKeys = 10000,
       cfg_EvictionPolicy = ''lru'',
       cfg_CleanupInterval = 5 * time_Minute,
       cfg_ToolTTLs =
         [(''web_search'', 5 * time_Minute),
          (''content_fetch'', 30 * time_Minute),
          (''summarize_text'', 60 * time_Minute),
          (''sentiment_analysis'', 45 * time_Minute),
          (''compute_metric'', 20 * time_Minute),
          (''entity_extraction'', 60 * time_Minute)],
       cfg_Backend = ''memory'',
       cfg_BackendConfig =
         [(''redis_addr'', ''localhost:6379''), (''redis_password'', []),
          (''redis_db'', ''0''), (''file_path'', ''./cache'')] \<rparr>"

section \<open>The in-memory cache (core/mcp.go, section 14)\<close>

text \<open>
  \<open>realMCPCache\<close> holds one Go map from the storage key to the cached result. Only
  lookup, store, removal and \<open>len\<close> are used on it, so it is a finite map. Every method
  takes the cache and gives back the cache it leaves; the mutex is not modelled.
\<close>

record realMCPCache =
  data :: "(string, MCPCachedResult) fmap"

definition newRealMCPCache :: realMCPCache where
  "newRealMCPCache = \<lparr> data = fmempty \<rparr>"

definition realMCPCache_Get ::
  "int \<Rightarrow> realMCPCache \<Rightarrow> MCPCacheKey \<Rightarrow> (error + MCPCachedResult) \<times> realMCPCache" where
  "realMCPCache_Get now c key =
     (case fmlookup (data c) (keyToString key) of
        None \<Rightarrow> (Inl ''cache miss'', c)
      | Some result \<Rightarrow>
          if now - cr_Timestamp result > cr_TTL result
          then (Inl ''cache expired'', c\<lparr> data := fmdrop (keyToString key) (data c) \<rparr>)
          else (Inr result, c))"

definition realMCPCache_Set ::
  "int \<Rightarrow> realMCPCache \<Rightarrow> MCPCacheKey \<Rightarrow> MCPToolResult \<Rightarrow> int \<Rightarrow> realMCPCache" where
  "realMCPCache_Set now c key result ttl =
     c\<lparr> data := fmupd (keyToString key)
                   \<lparr> cr_Key = key, cr_Result = result, cr_Timestamp = now,
                     cr_TTL = ttl, cr_AccessCount = 0 \<rparr>
                   (data c) \<rparr>"

definition realMCPCache_Delete :: "realMCPCache \<Rightarrow> MCPCacheKey \<Rightarrow> realMCPCache" where
  "realMCPCache_Delete c key = c\<lparr> data := fmdrop (keyToString key) (data c) \<rparr>"

definition realMCPCache_Clear :: "realMCPCache \<Rightarrow> realMCPCache" where
  "realMCPCache_Clear c = c\<lparr> data := fmempty \<rparr>"

definition realMCPCache_Size :: "realMCPCache \<Rightarrow> int" where
  "realMCPCache_Size c = int (fcard (fmdom (data c)))"

definition realMCPCache_Exists :: "realMCPCache \<Rightarrow> MCPCacheKey \<Rightarrow> bool" where
  "realMCPCache_Exists c key = (fmlookup (data c) (keyToString key) \<noteq> None)"

definition realMCPCache_Stats :: "realMCPCache \<Rightarrow> MCPCacheStats" where
  "realMCPCache_Stats c =
     \<lparr> st_TotalKeys = int (fcard (fmdom (data c))),
       st_HitCount = 0, st_MissCount = 0, st_HitRate = 0,
       st_EvictionCount = 0, st_TotalSize = 0, st_AverageLatency = 0, st_LastCleanup = 0 \<rparr>"

definition realMCPCache_Cleanup :: "int \<Rightarrow> realMCPCache \<Rightarrow> realMCPCache" where
  "realMCPCache_Cleanup now c =
     c\<lparr> data := fmfilter (\<lambda>k. case fmlookup (data c) k of
                                None \<Rightarrow> False
                              | Some result \<Rightarrow> \<not> (now - cr_Timestamp result > cr_TTL result))
                  (data c) \<rparr>"

section \<open>The cache manager (core/mcp.go, section 14)\<close>

text \<open>
  The manager maps \<open>toolName:serverName\<close> to the cache of that pair. In Go the map holds
  pointers, so a method called on the cache that \<open>GetCache\<close> returned changes the cache
  in the map; the model writes the changed cache back under its key.
\<close>

record realMCPCacheManager =
  config :: MCPCacheConfig
  caches :: "(string, realMCPCache) fmap"

definition createRealMCPCacheManager :: "MCPCacheConfig \<Rightarrow> realMCPCacheManager" where
  "createRealMCPCacheManager cfg = \<lparr> config = cfg, caches = fmempty \<rparr>"

definition pair_key :: "string \<Rightarrow> string \<Rightarrow> string" where
  "pair_key toolName serverName = toolName @ '':'' @ serverName"

definition GetCache ::
  "realMCPCacheManager \<Rightarrow> string \<Rightarrow> string \<Rightarrow> realMCPCache \<times> realMCPCacheManager" where
  "GetCache cm toolName serverName =
     (case fmlookup (caches cm) (pair_key toolName serverName) of
        Some cache \<Rightarrow> (cache, cm)
      | None \<Rightarrow>
          (newRealMCPCache,
           cm\<lparr> caches := fmupd (pair_key toolName serverName) newRealMCPCache (caches cm) \<rparr>))"

definition put_cache ::
  "realMCPCacheManager \<Rightarrow> string \<Rightarrow> string \<Rightarrow> realMCPCache \<Rightarrow> realMCPCacheManager" where
  "put_cache cm toolName serverName cache =
     cm\<lparr> caches := fmupd (pair_key toolName serverName) cache (caches cm) \<rparr>"

text \<open>
  \<open>GetMCPManager()\<close> gives the global manager: none, a manager of another type, or a
  \<open>realMCPManager\<close>, of which \<open>ExecuteWithCache\<close> uses the method \<open>executeTool\<close> only.
  That method talks to the tool server; it is the function carried by \<open>RealManager\<close>,
  from the tool name and the arguments to the result and the error it returns.
\<close>

datatype 'v manager =
    NoManager
  | OtherManager
  | RealManager "string \<Rightarrow> (string \<times> 'v) list \<Rightarrow> MCPToolResult \<times> error option"

text \<open>
  The arguments of an execution are of any type; \<open>sprint\<close> is \<open>fmt.Sprintf("%v", v)\<close>.
\<close>

definition stringify_args :: "('v \<Rightarrow> string) \<Rightarrow> (string \<times> 'v) list \<Rightarrow> gomap" where
  "stringify_args sprint arguments =
     fold (\<lambda>(k, v) args. AList.update k (sprint v) args) arguments []"

definition execution_key :: "('v \<Rightarrow> string) \<Rightarrow> 'v MCPToolExecution \<Rightarrow> MCPCacheKey" where
  "execution_key sprint execution =
     GenerateCacheKey (ex_ToolName execution) (ex_ServerName execution)
       (stringify_args sprint (ex_Arguments execution))"

text \<open>
  \<open>ExecuteWithCache\<close> reads the clock twice: \<open>t_get\<close> is the instant of the lookup,
  \<open>t_set\<close> the instant at which the result is stored. It returns the result, the error
  (\<open>None\<close> for \<open>nil\<close>) and the manager it leaves.
\<close>

definition ExecuteWithCache ::
  "('v \<Rightarrow> string) \<Rightarrow> 'v manager \<Rightarrow> int \<Rightarrow> int \<Rightarrow> realMCPCacheManager \<Rightarrow> 'v MCPToolExecution
     \<Rightarrow> (MCPToolResult \<times> error option) \<times> realMCPCacheManager" where
  "ExecuteWithCache sprint manager t_get t_set cm execution =
     (let cacheKey = execution_key sprint execution;
          toolName = ex_ToolName execution;
          serverName = ex_ServerName execution;
          (cache, cm1) = GetCache cm toolName serverName;
          (looked, cache1) =
             (if cfg_Enabled (config cm) then realMCPCache_Get t_get cache cacheKey
              else (Inl [], cache));
          cm2 = put_cache cm1 toolName serverName cache1
      in case looked of
           Inr cached \<Rightarrow> ((cr_Result cached, None), cm2)
         | Inl _ \<Rightarrow>
            (case manager of
               NoManager \<Rightarrow> ((MCPToolResult_zero, Some ''MCP manager not initialized''), cm2)
             | OtherManager \<Rightarrow>
                 ((MCPToolResult_zero, Some ''manager does not support tool execution''), cm2)
             | RealManager executeTool \<Rightarrow>
                 (case executeTool toolName (ex_Arguments execution) of
                    (result, Some err) \<Rightarrow> ((result, Some err), cm2)
                  | (result, None) \<Rightarrow>
                      if cfg_Enabled (config cm) \<and> res_Success result
                      then ((result, None),
                            put_cache cm2 toolName serverName
                              (realMCPCache_Set t_set cache1 cacheKey result
                                 (cfg_DefaultTTL (config cm))))
                      else ((result, None), cm2))))"

text \<open>The entry stored for a storage key in the cache of a pair, if any.\<close>

definition cached_entry ::
  "realMCPCacheManager \<Rightarrow> string \<Rightarrow> string \<Rightarrow> string \<Rightarrow> MCPCachedResult option" where
  "cached_entry cm toolName serverName keyStr =
     (case fmlookup (caches cm) (pair_key toolName serverName) of
        None \<Rightarrow> None
      | Some cache \<Rightarrow> fmlookup (data cache) keyStr)"

text \<open>Whether \<open>ExecuteWithCache\<close> answers from the cache (its "Cache hit" branch).\<close>

definition cache_hit ::
  "('v \<Rightarrow> string) \<Rightarrow> int \<Rightarrow> realMCPCacheManager \<Rightarrow> 'v MCPToolExecution \<Rightarrow> bool" where
  "cache_hit sprint t_get cm execution =
     (cfg_Enabled (config cm) \<and>
      (case cached_entry cm (ex_ToolName execution) (ex_ServerName execution)
              (keyToString (execution_key sprint execution)) of
         None \<Rightarrow> False
       | Some result \<Rightarrow> \<not> (t_get - cr_Timestamp result > cr_TTL result)))"

text \<open>Every entry of every cache of the manager wraps a successful result.\<close>

definition all_cached_successful :: "realMCPCacheManager \<Rightarrow> bool" where
  "all_cached_successful cm =
     fmpred (\<lambda>_ cache. fmpred (\<lambda>_ entry. res_Success (cr_Result entry)) (data cache)) (caches cm)"

definition realMCPCacheManager_InvalidateByPattern ::
  "realMCPCacheManager \<Rightarrow> string \<Rightarrow> realMCPCacheManager" where
  "realMCPCacheManager_InvalidateByPattern cm pattern =
     cm\<lparr> caches := fmmap_keys (\<lambda>key cache. if strings_Contains key pattern
                                            then realMCPCache_Clear cache else cache)
                     (caches cm) \<rparr>"

text \<open>
  \<open>GetGlobalStats\<close> adds up the statistics of the caches. The order in which \<open>range\<close>
  visits them does not matter for a sum. \<open>HitRate\<close> is a \<open>float64\<close> quotient, written as
  a quotient of reals.
\<close>

definition cache_stats_of :: "realMCPCacheManager \<Rightarrow> string \<Rightarrow> MCPCacheStats" where
  "cache_stats_of cm k =
     (case fmlookup (caches cm) k of
        None \<Rightarrow> realMCPCache_Stats newRealMCPCache
      | Some cache \<Rightarrow> realMCPCache_Stats cache)"

definition GetGlobalStats :: "realMCPCacheManager \<Rightarrow> MCPCacheStats" where
  "GetGlobalStats cm =
     (let hits = (\<Sum>k\<in>fmdom' (caches cm). st_HitCount (cache_stats_of cm k));
          misses = (\<Sum>k\<in>fmdom' (caches cm). st_MissCount (cache_stats_of cm k))
      in \<lparr> st_TotalKeys = (\<Sum>k\<in>fmdom' (caches cm). st_TotalKeys (cache_stats_of cm k)),
           st_HitCount = hits,
           st_MissCount = misses,
           st_HitRate = (if hits + misses > 0 then real_of_int hits / real_of_int (hits + misses)
                         else 0),
           st_EvictionCount = 0,
           st_TotalSize = (\<Sum>k\<in>fmdom' (caches cm). st_TotalSize (cache_stats_of cm k)),
           st_AverageLatency = 0,
           st_LastCleanup = 0 \<rparr>)"

section \<open>Sample values\<close>

text \<open>A key, two results, two executions and a cache holding one entry stored at instant 0
  with a time to live of 100 ms, used to run the definitions.\<close>

definition example_key :: MCPCacheKey where
  "example_key = GenerateCacheKey ''search'' ''docker-mcp'' [(''query'', ''x'')]"

definition example_result :: MCPToolResult where
  "example_result =
     \<lparr> res_ToolName = ''search'', res_ServerName = ''docker-mcp'', res_Success = True,
       res_Content = [\<lparr> c_Type = ''text'', c_Text = ''found'', c_Data = [], c_MimeType = [] \<rparr>],
       res_Error = [], res_Duration = 5 \<rparr>"

definition example_failure :: MCPToolResult where
  "example_failure =
     \<lparr> res_ToolName = ''search'', res_ServerName = ''docker-mcp'', res_Success = False,
       res_Content = [], res_Error = ''Tool execution returned error'', res_Duration = 5 \<rparr>"

definition example_execution :: "string MCPToolExecution" where
  "example_execution =
     \<lparr> ex_ToolName = ''search'', ex_Arguments = [(''query'', ''x'')],
       ex_ServerName = ''docker-mcp'' \<rparr>"

definition example_web_search :: "string MCPToolExecution" where
  "example_web_search =
     \<lparr> ex_ToolName = ''web_search'', ex_Arguments = [(''query'', ''x'')],
       ex_ServerName = ''docker-mcp'' \<rparr>"

definition example_entry :: MCPCachedResult where
  "example_entry =
     \<lparr> cr_Key = example_key, cr_Result = example_result, cr_Timestamp = 0,
       cr_TTL = 100000000, cr_AccessCount = 0 \<rparr>"

definition example_cache :: realMCPCache where
  "example_cache = realMCPCache_Set 0 newRealMCPCache example_key example_result 100000000"

section \<open>Auxiliary definitions for the cache manager\<close>

text \<open>
  The first steps of \<open>ExecuteWithCache\<close>: the cache of the pair is fetched and, when
  caching is enabled, looked up. The result is what the lookup gave and the cache it left.
\<close>

definition after_lookup ::
  "('v \<Rightarrow> string) \<Rightarrow> int \<Rightarrow> realMCPCacheManager \<Rightarrow> 'v MCPToolExecution
     \<Rightarrow> (error + MCPCachedResult) \<times> realMCPCache" where
  "after_lookup sprint t_get cm e =
     (if cfg_Enabled (config cm)
      then realMCPCache_Get t_get (fst (GetCache cm (ex_ToolName e) (ex_ServerName e)))
             (execution_key sprint e)
      else (Inl [], fst (GetCache cm (ex_ToolName e) (ex_ServerName e))))"

text \<open>Every entry of the cache wraps a successful result.\<close>

definition cache_successful :: "realMCPCache \<Rightarrow> bool" where
  "cache_successful c = fmpred (\<lambda>_ entry. res_Success (cr_Result entry)) (data c)"

text \<open>A fresh manager with the default configuration, a tool that fails and one that
  succeeds, and the manager after one successful execution.\<close>

definition example_manager :: realMCPCacheManager where
  "example_manager = createRealMCPCacheManager DefaultMCPCacheConfig"

definition failing_tool ::
  "string \<Rightarrow> (string \<times> string) list \<Rightarrow> MCPToolResult \<times> error option" where
  "failing_tool toolName args = (example_failure, None)"

definition working_tool ::
  "string \<Rightarrow> (string \<times> string) list \<Rightarrow> MCPToolResult \<times> error option" where
  "working_tool toolName args = (example_result, None)"

definition example_after_miss :: realMCPCacheManager where
  "example_after_miss =
     snd (ExecuteWithCache id (RealManager working_tool) 0 1 example_manager example_execution)"

text \<open>
  A sequence of executions through one manager, each with its two clock readings. The
  result counts the executions answered from the cache (hits) and the others (misses),
  and gives the manager left at the end.
\<close>

fun run_executions ::
  "('v \<Rightarrow> string) \<Rightarrow> 'v manager \<Rightarrow> realMCPCacheManager \<Rightarrow> (int \<times> int \<times> 'v MCPToolExecution) list
     \<Rightarrow> nat \<times> nat \<times> realMCPCacheManager" where
  "run_executions sprint manager cm [] = (0, 0, cm)"
| "run_executions sprint manager cm ((t_get, t_set, e) # rest) =
     (case run_executions sprint manager
             (snd (ExecuteWithCache sprint manager t_get t_set cm e)) rest of
        (hits, misses, cm') \<Rightarrow>
          if cache_hit sprint t_get cm e then (Suc hits, misses, cm')
          else (hits, Suc misses, cm'))"

section \<open>JSON values\<close>

text \<open>
  What \<open>encoding/json\<close> stores in an \<open>interface{}\<close>: \<open>nil\<close>, a \<open>bool\<close>, a \<open>float64\<close>
  (written as the real it stands for), a \<open>string\<close>, a slice or a
  \<open>map[string]interface{}\<close>. A map is the list of its entries, with distinct keys;
  storing under a key is \<^const>\<open>AList.update\<close>.
\<close>

datatype jvalue =
    JNull
  | JBool bool
  | JNumber real
  | JString string
  | JArray "jvalue list"
  | JObject "(string \<times> jvalue) list"

type_synonym jobject = "(string \<times> jvalue) list"

section \<open>The tool call parser (core/mcp.go, section 17)\<close>

lemma strings_Split_length:
  "part \<in> set (strings_Split s sep) \<Longrightarrow> length part \<le> length s"
proof (induction s sep arbitrary: part rule: strings_Split.induct)
  case (1 s sep)
  show ?case
  proof (cases "sep = []")
    case True
    with "1.prems" have "\<exists>c \<in> set s. part = [c]"
      by (auto simp add: strings_Split.simps [of s "[]"])
    then show ?thesis by (cases s) auto
  next
    case False
    show ?thesis
    proof (cases "strings_Index s sep")
      case None
      with False "1.prems" show ?thesis by (simp add: strings_Split.simps [of s sep])
    next
      case (Some m)
      with False "1.prems" have "part = take m s \<or> part \<in> set (strings_Split (drop (m + length sep) s) sep)"
        by (simp add: strings_Split.simps [of s sep])
      then show ?thesis
      proof
        assume "part = take m s"
        then show ?thesis by simp
      next
        assume "part \<in> set (strings_Split (drop (m + length sep) s) sep)"
        then have "length part \<le> length (drop (m + length sep) s)"
          using "1.IH" [OF False Some] by simp
        then show ?thesis by simp
      qed
    qed
  qed
qed

lemma trim_by_length: "length (trim_by p s) \<le> length s"
proof -
  have "length (dropWhile p (rev (dropWhile p s))) \<le> length (rev (dropWhile p s))"
    by (rule length_dropWhile_le)
  also have "\<dots> \<le> length s"
    by (simp add: length_dropWhile_le)
  finally show ?thesis by (simp add: trim_by_def)
qed

lemma strings_Trim_length: "length (strings_Trim s cutset) \<le> length s"
  by (simp add: strings_Trim_def trim_by_length)

lemma strings_SplitN_second:
  "sep \<noteq> [] \<Longrightarrow> length (strings_SplitN s sep 2) = 2 \<Longrightarrow>
   length (strings_SplitN s sep 2 ! 1) < length s"
proof -
  assume sep: "sep \<noteq> []" and len: "length (strings_SplitN s sep 2) = 2"
  have two: "strings_SplitN s sep 2 = strings_SplitN s sep (Suc (Suc 0))"
    by (simp add: numeral_2_eq_2)
  show ?thesis
  proof (cases "strings_Index s sep")
    case None
    with len two show ?thesis by simp
  next
    case (Some m)
    then have "m + length sep \<le> length s" by (rule strings_Index_bound)
    moreover have "0 < length sep" using sep by simp
    ultimately have "length s - (m + length sep) < length s" by arith
    with Some two show ?thesis by simp
  qed
qed

text \<open>
  \<open>strict\<close> stands for \<open>json.Unmarshal\<close> into a \<open>map[string]interface{}\<close>: \<open>None\<close> when
  it returns an error, in which case it has stored nothing (the input is checked before
  anything is decoded), otherwise the decoded map.

  In the fallback, \<open>keyValue\<close> is \<open>strings.SplitN(part, ":", 2)\<close>; the key and the
  value are its two elements with spaces and double quotes trimmed.
\<close>

definition keyValue :: "string \<Rightarrow> string list" where
  "keyValue part = strings_SplitN part '':'' 2"

definition part_key :: "string \<Rightarrow> string" where
  "part_key part = strings_Trim (keyValue part ! 0) '' \"''"

definition part_value :: "string \<Rightarrow> string" where
  "part_value part = strings_Trim (keyValue part ! 1) '' \"''"

lemma part_value_length: "length (keyValue part) = 2 \<Longrightarrow> length (part_value part) < length part"
proof -
  assume two: "length (keyValue part) = 2"
  have "length (part_value part) \<le> length (keyValue part ! 1)"
    unfolding part_value_def by (rule strings_Trim_length)
  also have "\<dots> < length part"
    using two strings_SplitN_second [of "'':''" part] by (simp add: keyValue_def)
  finally show ?thesis .
qed

function ParseToolCallJSON :: "(string \<Rightarrow> jobject option) \<Rightarrow> string \<Rightarrow> jobject" where
  "ParseToolCallJSON strict jsonStr =
     (case strict jsonStr of
        Some result \<Rightarrow> result
      | None \<Rightarrow>
          fold (\<lambda>part result.
                  if strings_Contains part '':'' then
                    if length (keyValue part) = 2 then
                      if part_key part = ''args'' \<and> strings_HasPrefix (part_value part) ''{''
                         \<and> strings_HasSuffix (part_value part) ''}''
                      then AList.update (part_key part)
                             (JObject (ParseToolCallJSON strict (part_value part))) result
                      else AList.update (part_key part) (JString (part_value part)) result
                    else result
                  else result)
               (strings_Split (strings_Trim jsonStr ''{}'') '','') [])"
  by pat_completeness auto
termination
proof (relation "measure (\<lambda>(strict, jsonStr). length jsonStr)")
  show "wf (measure (\<lambda>(strict, jsonStr). length jsonStr))" by simp
next
  fix strict :: "string \<Rightarrow> jobject option" and jsonStr part :: string
  assume part: "part \<in> set (strings_Split (strings_Trim jsonStr ''{}'') '','')"
    and two: "length (keyValue part) = 2"
  have "length (part_value part) < length part"
    using two by (rule part_value_length)
  also have "\<dots> \<le> length (strings_Trim jsonStr ''{}'')"
    using part by (rule strings_Split_length)
  also have "\<dots> \<le> length jsonStr"
    by (rule strings_Trim_length)
  finally show "((strict, part_value part), (strict, jsonStr))
      \<in> measure (\<lambda>(strict, jsonStr). length jsonStr)"
    by simp
qed

declare ParseToolCallJSON.simps [simp del]

text \<open>
  The scan for the closing brace: \<open>braceCount\<close>, the byte index \<open>j\<close> and the rest of the
  segment. The result is \<open>endIndex\<close>, \<open>-1\<close> when the scan ends without one. The braces are
  ASCII, so going through the segment byte by byte finds them where \<open>range\<close> does.
\<close>

fun scan_braces :: "int \<Rightarrow> nat \<Rightarrow> string \<Rightarrow> int" where
  "scan_braces braceCount j [] = -1"
| "scan_braces braceCount j (char # rest) =
     (if char = CHR ''{'' then scan_braces (braceCount + 1) (Suc j) rest
      else if char = CHR ''}'' then
        (if braceCount - 1 = 0 then int j else scan_braces (braceCount - 1) (Suc j) rest)
      else scan_braces braceCount (Suc j) rest)"

definition parse_part :: "(string \<Rightarrow> jobject option) \<Rightarrow> string \<Rightarrow> jobject list \<Rightarrow> jobject list" where
  "parse_part strict part toolCalls =
     (if strings_HasPrefix part ''{'' then
        (if scan_braces 0 0 part > 0 then
           (if ParseToolCallJSON strict (take (nat (scan_braces 0 0 part + 1)) part) \<noteq> []
            then toolCalls @ [ParseToolCallJSON strict (take (nat (scan_braces 0 0 part + 1)) part)]
            else toolCalls)
         else toolCalls)
      else toolCalls)"

text \<open>The marker that \<open>ParseLLMToolCalls\<close> splits the text on.\<close>

definition marker :: string where
  "marker = ''TOOL_CALL''"

definition ParseLLMToolCalls :: "(string \<Rightarrow> jobject option) \<Rightarrow> string \<Rightarrow> jobject list" where
  "ParseLLMToolCalls strict content =
     fold (parse_part strict) (drop 1 (strings_Split content marker)) []"

section \<open>The connection manager (core/mcp.go, section 13)\<close>

record MCPServerConfig =
  srv_Name :: string
  srv_Type :: string
  srv_Host :: string
  srv_Port :: int
  srv_Command :: string
  srv_Enabled :: bool

record MCPToolInfo =
  ti_Name :: string
  ti_Description :: string
  ti_Schema :: jobject
  ti_ServerName :: string

text \<open>A tool as the MCP client lists it; \<open>InputSchema\<close> may be \<open>nil\<close>.\<close>

record mcp_Tool =
  mt_Name :: string
  mt_Description :: string
  mt_InputSchema :: "jobject option"

text \<open>
  What the network answers during one attempt on a server, by host and port:
  \<open>net.DialTimeout\<close> and, for the MCP client, \<open>Connect\<close>, \<open>Initialize\<close> and \<open>ListTools\<close>.
  \<open>None\<close> is a \<open>nil\<close> error.
\<close>

record network =
  net_Dial :: "string \<Rightarrow> int \<Rightarrow> error option"
  client_Connect :: "string \<Rightarrow> int \<Rightarrow> error option"
  client_Initialize :: "string \<Rightarrow> int \<Rightarrow> error option"
  client_ListTools :: "string \<Rightarrow> int \<Rightarrow> error + mcp_Tool list"

record realMCPManager =
  mgr_Servers :: "MCPServerConfig list"
  connectedServers :: "(string, bool) fmap"
  tools :: "MCPToolInfo list"


text \<open>\<open>fmt.Sprintf("%d", n)\<close> and the address \<open>host:port\<close> of the log and error messages.\<close>

function nat_decimal :: "nat \<Rightarrow> string" where
  "nat_decimal n =
     (if n < 10 then [''0123456789'' ! n]
      else nat_decimal (n div 10) @ [''0123456789'' ! (n mod 10)])"
  by pat_completeness auto
termination
  by (relation "measure id") auto

declare nat_decimal.simps [simp del]

definition int_decimal :: "int \<Rightarrow> string" where
  "int_decimal i = (if i < 0 then ''-'' @ nat_decimal (nat (- i)) else nat_decimal (nat i))"

definition address_of :: "MCPServerConfig \<Rightarrow> string" where
  "address_of server = srv_Host server @ '':'' @ int_decimal (srv_Port server)"

definition find_server :: "realMCPManager \<Rightarrow> string \<Rightarrow> MCPServerConfig option" where
  "find_server m serverName = find (\<lambda>server. srv_Name server = serverName) (mgr_Servers m)"

definition realMCPManager_Connect ::
  "network \<Rightarrow> realMCPManager \<Rightarrow> string \<Rightarrow> error option \<times> realMCPManager" where
  "realMCPManager_Connect net m serverName =
     (case find_server m serverName of
        None \<Rightarrow> (Some (''server '' @ serverName @ '' not found in configuration''), m)
      | Some serverConfig \<Rightarrow>
          if srv_Type serverConfig = ''tcp'' then
            (case net_Dial net (srv_Host serverConfig) (srv_Port serverConfig) of
               Some err \<Rightarrow>
                 (Some (''connection failed to '' @ address_of serverConfig @ '': '' @ err), m)
             | None \<Rightarrow>
                 (None, m\<lparr> connectedServers := fmupd serverName True (connectedServers m) \<rparr>))
          else (Some (''unsupported server type: '' @ srv_Type serverConfig), m))"







section \<open>Sample values for the connection manager\<close>



section \<open>Words for the claims about the parser\<close>

text \<open>
  The words of the claims about the parser. A segment is never closed when every prefix
  of it that is not empty has more opening than closing braces: the brace that opens it
  is never matched. An object text ends with the brace that matches its first brace:
  what comes before that last brace is never closed and has one more opening than
  closing brace.
\<close>

definition open_braces :: "string \<Rightarrow> nat" where
  "open_braces s = count_list s (CHR ''{'')"

definition close_braces :: "string \<Rightarrow> nat" where
  "close_braces s = count_list s (CHR ''}'')"

definition never_closed :: "string \<Rightarrow> bool" where
  "never_closed seg =
     (\<forall>p \<in> set (prefixes seg). p \<noteq> [] \<longrightarrow> close_braces p < open_braces p)"

definition object_text :: "string \<Rightarrow> bool" where
  "object_text obj =
     (obj \<noteq> [] \<and> last obj = CHR ''}'' \<and> butlast obj \<noteq> [] \<and> never_closed (butlast obj) \<and>
      open_braces (butlast obj) = close_braces (butlast obj) + 1)"

text \<open>What a character adds to the brace count.\<close>

definition brace_step :: "char \<Rightarrow> int" where
  "brace_step c = (if c = CHR ''{'' then 1 else if c = CHR ''}'' then - 1 else 0)"

text \<open>The tool call of the specification, as text and decoded, and a strict decoder
  that knows this text only.\<close>

definition search_call_text :: string where
  "search_call_text = ''{\"name\": \"search\", \"args\": {\"query\": \"x\"}}''"

definition search_call :: jobject where
  "search_call = [(''name'', JString ''search''), (''args'', JObject [(''query'', JString ''x'')])]"

definition example_strict :: "string \<Rightarrow> jobject option" where
  "example_strict s = (if s = search_call_text then Some search_call else None)"

section \<open>Words for the claims about the fallback decoder\<close>













section \<open>Properties of the cache key\<close>

lemma digest_Query: "take 16 (hex_EncodeToString (sha256_Sum (bytes_of ''Query=x|''))) = ''740ebcfb144d47e8''"
  by code_simp

lemma digest_query: "take 16 (hex_EncodeToString (sha256_Sum (bytes_of ''query=x|''))) = ''38e87be6a9e492b6''"
  by code_simp

lemma hash_input_Query: "hash_input [(''Query'', ''x'')] = ''Query=x|''"
  by (simp add: hash_input_def map_index_def)

lemma hash_input_query: "hash_input [(''query'', ''x'')] = ''query=x|''"
  by (simp add: hash_input_def map_index_def)

lemma normalizeArgs_Query: "normalizeArgs [(''Query'', ''x'')] = [(''query'', ''x'')]"
  by code_simp

lemma normalizeArgs_query: "normalizeArgs [(''query'', ''x'')] = [(''query'', ''x'')]"
  by code_simp

text \<open>
  The order in which \<open>range\<close> visits the entries of the argument map does not change
  the digest: two lists of the same entries, each with distinct keys, have the same digest.
\<close>

lemma hash_input_order:
  assumes da: "distinct (map fst a)" and db: "distinct (map fst b)" and ab: "set a = set b"
  shows "hash_input a = hash_input b"
proof -
  have m: "map_of a = map_of b"
    using map_of_inject_set [OF da db] ab by blast
  have "fst ` set a = fst ` set b"
    by (simp only: ab)
  then have s: "set (sort (map fst a)) = set (sort (map fst b))"
    by (simp only: set_sort set_map)
  have "sort (map fst a) = sort (map fst b)"
  proof (rule sorted_distinct_set_unique)
    show "sorted (sort (map fst a))" by (rule sorted_sort)
    show "sorted (sort (map fst b))" by (rule sorted_sort)
    show "distinct (sort (map fst a))" using da by (simp only: distinct_sort)
    show "distinct (sort (map fst b))" using db by (simp only: distinct_sort)
    show "set (sort (map fst a)) = set (sort (map fst b))" by (rule s)
  qed
  then show ?thesis
    by (simp only: hash_input_def map_index_def m)
qed

lemma generateArgHash_order:
  "distinct (map fst a) \<Longrightarrow> distinct (map fst b) \<Longrightarrow> set a = set b \<Longrightarrow>
   generateArgHash a = generateArgHash b"
  using hash_input_order [of a b] by (simp only: generateArgHash_def)

text \<open>
  C1. The digest of a cache key is meant to be the same for argument maps that differ
  only in the case of a key. It is computed from the arguments as given, not from the
  normalized ones: the maps \<open>{"Query": "x"}\<close> and \<open>{"query": "x"}\<close> normalize to the
  same map and get different digests.
\<close>

theorem C1_digest_differs_on_key_case:
  "normalizeArgs [(''Query'', ''x'')] = normalizeArgs [(''query'', ''x'')] \<and>
   key_Args (GenerateCacheKey ''search'' ''srv'' [(''Query'', ''x'')]) =
     key_Args (GenerateCacheKey ''search'' ''srv'' [(''query'', ''x'')]) \<and>
   key_Hash (GenerateCacheKey ''search'' ''srv'' [(''Query'', ''x'')]) = ''740ebcfb144d47e8'' \<and>
   key_Hash (GenerateCacheKey ''search'' ''srv'' [(''query'', ''x'')]) = ''38e87be6a9e492b6'' \<and>
   key_Hash (GenerateCacheKey ''search'' ''srv'' [(''Query'', ''x'')]) \<noteq>
     key_Hash (GenerateCacheKey ''search'' ''srv'' [(''query'', ''x'')])"
  by (simp add: GenerateCacheKey_def generateArgHash_def hash_input_Query hash_input_query
      digest_Query digest_query normalizeArgs_Query normalizeArgs_query)



section \<open>Properties of the cache\<close>

lemma Get_fresh:
  "fmlookup (data c) (keyToString key) = Some e \<Longrightarrow> now - cr_Timestamp e \<le> cr_TTL e \<Longrightarrow>
   realMCPCache_Get now c key = (Inr e, c)"
  by (simp add: realMCPCache_Get_def)

lemma Get_expired:
  "fmlookup (data c) (keyToString key) = Some e \<Longrightarrow> now - cr_Timestamp e > cr_TTL e \<Longrightarrow>
   realMCPCache_Get now c key =
     (Inl ''cache expired'', c\<lparr> data := fmdrop (keyToString key) (data c) \<rparr>)"
  by (simp add: realMCPCache_Get_def)

lemma Get_absent:
  "fmlookup (data c) (keyToString key) = None \<Longrightarrow>
   realMCPCache_Get now c key = (Inl ''cache miss'', c)"
  by (simp add: realMCPCache_Get_def)

lemma fcard_fmdrop:
  "fmlookup m k = Some e \<Longrightarrow> int (fcard (fmdom (fmdrop k m))) = int (fcard (fmdom m)) - 1"
proof -
  assume a: "fmlookup m k = Some e"
  then have "k |\<in>| fmdom m" by (rule fmdomI)
  then have "Suc (fcard (fmdom m |-| {|k|})) = fcard (fmdom m)"
    by (rule fcard_Suc_fminus1)
  then show ?thesis by simp
qed

lemma example_cache_lookup:
  "fmlookup (data example_cache) (keyToString example_key) = Some example_entry"
  by (simp add: example_cache_def example_entry_def realMCPCache_Set_def)

lemma example_cache_size: "realMCPCache_Size example_cache = 1"
  by (simp add: example_cache_def realMCPCache_Set_def realMCPCache_Size_def
      newRealMCPCache_def fcard_finsert_if)

text \<open>
  C3. For a key stored in a cache, \<open>Get\<close> returns the stored entry (and leaves the cache
  as it is) when the age of the entry, \<open>now - Timestamp\<close>, does not exceed its \<open>TTL\<close>.
  When the age exceeds the \<open>TTL\<close>, \<open>Get\<close> returns the error "cache expired" (a miss) and
  removes the entry, so that the number of entries goes down by one. For a key that is
  not stored, \<open>Get\<close> returns the error "cache miss" and leaves the cache as it is.
\<close>

theorem C3_Get_respects_ttl:
  "(fmlookup (data c) (keyToString key) = Some e \<and> now - cr_Timestamp e \<le> cr_TTL e \<longrightarrow>
      realMCPCache_Get now c key = (Inr e, c)) \<and>
   (fmlookup (data c) (keyToString key) = Some e \<and> now - cr_Timestamp e > cr_TTL e \<longrightarrow>
      fst (realMCPCache_Get now c key) = Inl ''cache expired'' \<and>
      data (snd (realMCPCache_Get now c key)) = fmdrop (keyToString key) (data c) \<and>
      fmlookup (data (snd (realMCPCache_Get now c key))) (keyToString key) = None \<and>
      realMCPCache_Size (snd (realMCPCache_Get now c key)) = realMCPCache_Size c - 1) \<and>
   (fmlookup (data c) (keyToString key) = None \<longrightarrow>
      fst (realMCPCache_Get now c key) = Inl ''cache miss'' \<and>
      snd (realMCPCache_Get now c key) = c)"
proof (intro conjI impI)
  assume "fmlookup (data c) (keyToString key) = Some e \<and> now - cr_Timestamp e \<le> cr_TTL e"
  then show "realMCPCache_Get now c key = (Inr e, c)" by (simp add: Get_fresh)
next
  assume a: "fmlookup (data c) (keyToString key) = Some e \<and> cr_TTL e < now - cr_Timestamp e"
  then have g: "realMCPCache_Get now c key =
     (Inl ''cache expired'', c\<lparr> data := fmdrop (keyToString key) (data c) \<rparr>)"
    by (simp add: Get_expired)
  show "fst (realMCPCache_Get now c key) = Inl ''cache expired''" by (simp add: g)
  show "data (snd (realMCPCache_Get now c key)) = fmdrop (keyToString key) (data c)"
    by (simp add: g)
  show "fmlookup (data (snd (realMCPCache_Get now c key))) (keyToString key) = None"
    by (simp add: g)
  show "realMCPCache_Size (snd (realMCPCache_Get now c key)) = realMCPCache_Size c - 1"
    using a by (simp add: g realMCPCache_Size_def fcard_fmdrop del: fmdom_drop)
next
  assume a: "fmlookup (data c) (keyToString key) = None"
  show "fst (realMCPCache_Get now c key) = Inl ''cache miss''" using a by (simp add: Get_absent)
  show "snd (realMCPCache_Get now c key) = c" using a by (simp add: Get_absent)
qed

text \<open>
  The entry of the sample cache was stored at instant 0 with a time to live of 100 ms:
  at 99 ms \<open>Get\<close> returns it, at 101 ms \<open>Get\<close> misses and the cache goes from one entry
  to none, and on the empty cache \<open>Get\<close> misses.
\<close>

theorem C3_Get_respects_ttl_witness:
  "fmlookup (data example_cache) (keyToString example_key) = Some example_entry \<and>
   (99000000::int) - cr_Timestamp example_entry \<le> cr_TTL example_entry \<and>
   (101000000::int) - cr_Timestamp example_entry > cr_TTL example_entry \<and>
   fmlookup (data newRealMCPCache) (keyToString example_key) = None \<and>
   realMCPCache_Get 99000000 example_cache example_key = (Inr example_entry, example_cache) \<and>
   fst (realMCPCache_Get 101000000 example_cache example_key) = Inl ''cache expired'' \<and>
   realMCPCache_Size example_cache = 1 \<and>
   realMCPCache_Size (snd (realMCPCache_Get 101000000 example_cache example_key)) = 0 \<and>
   fst (realMCPCache_Get 0 newRealMCPCache example_key) = Inl ''cache miss''"
proof -
  have h1: "fmlookup (data example_cache) (keyToString example_key) = Some example_entry"
    by (rule example_cache_lookup)
  have h2: "(99000000::int) - cr_Timestamp example_entry \<le> cr_TTL example_entry"
    and h3: "(101000000::int) - cr_Timestamp example_entry > cr_TTL example_entry"
    by (simp_all add: example_entry_def)
  have h4: "fmlookup (data newRealMCPCache) (keyToString example_key) = None"
    by (simp add: newRealMCPCache_def)
  show ?thesis
    using h1 h2 h3 h4 example_cache_size
      C3_Get_respects_ttl [of example_cache example_key example_entry 99000000]
      C3_Get_respects_ttl [of example_cache example_key example_entry 101000000]
      C3_Get_respects_ttl [of newRealMCPCache example_key example_entry 0]
    by simp
qed

text \<open>
  What \<open>Exists\<close> computes. It makes no expiry check: it answers whether an entry is
  stored under the key. It is true for a stored entry whose age exceeds its \<open>TTL\<close>, for
  which \<open>Get\<close> answers "cache expired", and false exactly when \<open>Get\<close> answers
  "cache miss". It returns a truth value only, so it changes nothing.
\<close>

lemma Exists_is_presence_only:
  "(realMCPCache_Exists c key \<longleftrightarrow> fmlookup (data c) (keyToString key) \<noteq> None) \<and>
   (realMCPCache_Exists c key \<longleftrightarrow> fst (realMCPCache_Get now c key) \<noteq> Inl ''cache miss'') \<and>
   (fmlookup (data c) (keyToString key) = Some e \<and> now - cr_Timestamp e > cr_TTL e \<longrightarrow>
      realMCPCache_Exists c key \<and> fst (realMCPCache_Get now c key) = Inl ''cache expired'')"
  by (simp add: realMCPCache_Exists_def realMCPCache_Get_def split: option.split)

lemma Exists_is_presence_only_example:
  "fmlookup (data example_cache) (keyToString example_key) = Some example_entry \<and>
   (101000000::int) - cr_Timestamp example_entry > cr_TTL example_entry \<and>
   realMCPCache_Exists example_cache example_key \<and>
   fst (realMCPCache_Get 101000000 example_cache example_key) = Inl ''cache expired'' \<and>
   \<not> realMCPCache_Exists newRealMCPCache example_key"
proof -
  have h1: "fmlookup (data example_cache) (keyToString example_key) = Some example_entry"
    by (rule example_cache_lookup)
  have h2: "(101000000::int) - cr_Timestamp example_entry > cr_TTL example_entry"
    by (simp add: example_entry_def)
  have h3: "fmlookup (data newRealMCPCache) (keyToString example_key) = None"
    by (simp add: newRealMCPCache_def)
  show ?thesis
    using h1 h2 h3
      Exists_is_presence_only [of example_cache example_key 101000000 example_entry]
      Exists_is_presence_only [of newRealMCPCache example_key 0]
    by simp
qed

text \<open>
  C6. \<open>Exists\<close> is meant to apply the expiry check of \<open>Get\<close> and to be false for a
  stored entry whose age exceeds its \<open>TTL\<close>. It is not: the entry of the sample cache
  is 101 ms old with a time to live of 100 ms, \<open>Get\<close> answers "cache expired", and
  \<open>Exists\<close> is true.
\<close>

theorem C6_Exists_true_for_expired_entry:
  "cr_TTL example_entry < 101000000 - cr_Timestamp example_entry \<and>
   fmlookup (data example_cache) (keyToString example_key) = Some example_entry \<and>
   fst (realMCPCache_Get 101000000 example_cache example_key) = Inl ''cache expired'' \<and>
   realMCPCache_Exists example_cache example_key"
  by (simp add: example_cache_lookup realMCPCache_Exists_def realMCPCache_Get_def
      example_entry_def)



section \<open>Properties of the cache manager\<close>

text \<open>The cache of the pair after GetCache, and what a lookup in it gives.\<close>

lemma GetCache_lookup:
  "fmlookup (data (fst (GetCache cm t s))) k = cached_entry cm t s k"
  by (simp add: GetCache_def cached_entry_def newRealMCPCache_def split: option.split)

lemma cached_entry_put_cache [simp]:
  "cached_entry (put_cache cm t s c) t s k = fmlookup (data c) k"
  by (simp add: cached_entry_def put_cache_def)

lemma put_cache_twice [simp]:
  "put_cache (put_cache cm t s c) t s c' = put_cache cm t s c'"
  by (simp add: put_cache_def)

lemma config_put_cache [simp]: "config (put_cache cm t s c) = config cm"
  by (simp add: put_cache_def)

lemma put_cache_GetCache [simp]:
  "put_cache (snd (GetCache cm t s)) t s c = put_cache cm t s c"
  by (simp add: GetCache_def put_cache_def split: option.split)

lemma ExecuteWithCache_unfold:
  "ExecuteWithCache sprint manager t_get t_set cm e =
     (case after_lookup sprint t_get cm e of
        (Inr cached, c1) \<Rightarrow>
          ((cr_Result cached, None), put_cache cm (ex_ToolName e) (ex_ServerName e) c1)
      | (Inl x, c1) \<Rightarrow>
         (case manager of
            NoManager \<Rightarrow> ((MCPToolResult_zero, Some ''MCP manager not initialized''),
                           put_cache cm (ex_ToolName e) (ex_ServerName e) c1)
          | OtherManager \<Rightarrow> ((MCPToolResult_zero, Some ''manager does not support tool execution''),
                           put_cache cm (ex_ToolName e) (ex_ServerName e) c1)
          | RealManager executeTool \<Rightarrow>
              (case executeTool (ex_ToolName e) (ex_Arguments e) of
                 (result, Some err) \<Rightarrow> ((result, Some err), put_cache cm (ex_ToolName e) (ex_ServerName e) c1)
               | (result, None) \<Rightarrow>
                   if cfg_Enabled (config cm) \<and> res_Success result
                   then ((result, None),
                         put_cache cm (ex_ToolName e) (ex_ServerName e)
                           (realMCPCache_Set t_set c1 (execution_key sprint e) result
                              (cfg_DefaultTTL (config cm))))
                   else ((result, None), put_cache cm (ex_ToolName e) (ex_ServerName e) c1))))"
  unfolding ExecuteWithCache_def after_lookup_def Let_def
  by (simp add: case_prod_beta split: sum.split manager.split option.split prod.split)

lemma after_lookup_absent:
  "cached_entry cm (ex_ToolName e) (ex_ServerName e) (keyToString (execution_key sprint e)) = None \<Longrightarrow>
   isl (fst (after_lookup sprint t_get cm e)) \<and>
   snd (after_lookup sprint t_get cm e) = fst (GetCache cm (ex_ToolName e) (ex_ServerName e))"
  by (simp add: after_lookup_def Get_absent GetCache_lookup)

lemma after_lookup_miss:
  "\<not> cache_hit sprint t_get cm e \<Longrightarrow> isl (fst (after_lookup sprint t_get cm e))"
  by (auto simp add: after_lookup_def cache_hit_def realMCPCache_Get_def GetCache_lookup
      split: option.splits)

lemma after_lookup_hit:
  "cache_hit sprint t_get cm e \<Longrightarrow>
   \<exists>entry. cached_entry cm (ex_ToolName e) (ex_ServerName e) (keyToString (execution_key sprint e)) = Some entry
     \<and> after_lookup sprint t_get cm e = (Inr entry, fst (GetCache cm (ex_ToolName e) (ex_ServerName e)))"
  by (auto simp add: after_lookup_def cache_hit_def realMCPCache_Get_def GetCache_lookup
      split: option.splits)

lemma ExecuteWithCache_failure:
  assumes "\<not> res_Success (fst (executeTool (ex_ToolName e) (ex_Arguments e)))"
    and "cached_entry cm (ex_ToolName e) (ex_ServerName e) (keyToString (execution_key sprint e)) = None"
  shows "ExecuteWithCache sprint (RealManager executeTool) t_get t_set cm e =
           (executeTool (ex_ToolName e) (ex_Arguments e),
            put_cache cm (ex_ToolName e) (ex_ServerName e)
              (fst (GetCache cm (ex_ToolName e) (ex_ServerName e))))"
proof -
  obtain x c1 where al: "after_lookup sprint t_get cm e = (Inl x, c1)"
    and c1: "c1 = fst (GetCache cm (ex_ToolName e) (ex_ServerName e))"
    using after_lookup_absent [OF assms(2), of t_get]
    by (cases "after_lookup sprint t_get cm e") (auto simp: isl_def)
  obtain result err where ex: "executeTool (ex_ToolName e) (ex_Arguments e) = (result, err)"
    by (cases "executeTool (ex_ToolName e) (ex_Arguments e)") simp
  with assms(1) have "\<not> res_Success result" by simp
  then show ?thesis
    by (simp add: ExecuteWithCache_unfold al ex c1 split: option.split)
qed

lemma all_cached_successful_alt:
  "all_cached_successful cm = fmpred (\<lambda>_. cache_successful) (caches cm)"
  by (simp add: all_cached_successful_def cache_successful_def fmpred_iff)

lemma cache_successful_GetCache:
  "all_cached_successful cm \<Longrightarrow> cache_successful (fst (GetCache cm t s))"
  by (auto simp add: all_cached_successful_alt GetCache_def cache_successful_def
      newRealMCPCache_def split: option.split)

lemma cache_successful_Get:
  "cache_successful c \<Longrightarrow> cache_successful (snd (realMCPCache_Get now c key))"
  by (auto simp add: cache_successful_def realMCPCache_Get_def split: option.split)

lemma Get_entry_successful:
  "cache_successful c \<Longrightarrow> realMCPCache_Get now c key = (Inr entry, c') \<Longrightarrow>
   res_Success (cr_Result entry)"
  by (auto simp add: cache_successful_def realMCPCache_Get_def split: option.splits if_splits)

lemma cache_successful_Set:
  "cache_successful c \<Longrightarrow> res_Success r \<Longrightarrow>
   cache_successful (realMCPCache_Set now c key r ttl)"
  by (auto simp add: cache_successful_def realMCPCache_Set_def)

lemma all_cached_successful_put:
  "all_cached_successful cm \<Longrightarrow> cache_successful c \<Longrightarrow>
   all_cached_successful (put_cache cm t s c)"
  by (auto simp add: all_cached_successful_alt put_cache_def)

lemma cache_successful_after_lookup:
  "all_cached_successful cm \<Longrightarrow> cache_successful (snd (after_lookup sprint t_get cm e))"
  by (simp add: after_lookup_def cache_successful_Get cache_successful_GetCache)

lemma ExecuteWithCache_keeps_success:
  assumes inv: "all_cached_successful cm"
  shows "all_cached_successful (snd (ExecuteWithCache sprint manager t_get t_set cm e))"
proof -
  obtain looked c1 where al: "after_lookup sprint t_get cm e = (looked, c1)"
    by (cases "after_lookup sprint t_get cm e") simp
  have c1: "cache_successful c1"
    using cache_successful_after_lookup [OF inv, of sprint t_get e] by (simp add: al)
  have put: "all_cached_successful (put_cache cm (ex_ToolName e) (ex_ServerName e) c1)"
    using inv c1 by (rule all_cached_successful_put)
  have set: "res_Success r \<Longrightarrow> all_cached_successful (put_cache cm (ex_ToolName e) (ex_ServerName e)
      (realMCPCache_Set t_set c1 (execution_key sprint e) r ttl))" for r ttl
    using inv c1 by (simp add: all_cached_successful_put cache_successful_Set)
  show ?thesis
  proof (cases looked)
    case (Inr cached)
    then show ?thesis by (simp add: ExecuteWithCache_unfold al put)
  next
    case (Inl x)
    show ?thesis
    proof (cases manager)
      case NoManager
      then show ?thesis by (simp add: ExecuteWithCache_unfold al Inl put)
    next
      case OtherManager
      then show ?thesis by (simp add: ExecuteWithCache_unfold al Inl put)
    next
      case (RealManager executeTool)
      obtain result err where ex: "executeTool (ex_ToolName e) (ex_Arguments e) = (result, err)"
        by (cases "executeTool (ex_ToolName e) (ex_Arguments e)") simp
      show ?thesis
        by (cases err) (simp_all add: ExecuteWithCache_unfold al Inl RealManager ex put set)
    qed
  qed
qed

text \<open>
  C2. When the underlying execution returns a result with \<open>Success = false\<close> (with or
  without an error) and the key of the invocation is not stored in the cache of its pair,
  \<open>ExecuteWithCache\<close> returns what the execution returned and the key is still not
  stored afterwards. And \<open>ExecuteWithCache\<close> keeps the invariant that every entry of
  every cache wraps a result with \<open>Success = true\<close>, whatever the manager and the
  outcome of the execution: so every entry it ever stores wraps a successful result.
\<close>

theorem C2_failure_is_not_cached:
  "(\<not> res_Success (fst (executeTool (ex_ToolName e) (ex_Arguments e))) \<and>
    cached_entry cm (ex_ToolName e) (ex_ServerName e) (keyToString (execution_key sprint e)) = None
    \<longrightarrow>
      fst (ExecuteWithCache sprint (RealManager executeTool) t_get t_set cm e) =
        executeTool (ex_ToolName e) (ex_Arguments e) \<and>
      cached_entry (snd (ExecuteWithCache sprint (RealManager executeTool) t_get t_set cm e))
        (ex_ToolName e) (ex_ServerName e) (keyToString (execution_key sprint e)) = None) \<and>
   (all_cached_successful cm \<longrightarrow>
      all_cached_successful (snd (ExecuteWithCache sprint manager t_get t_set cm e)))"
proof (intro conjI impI)
  assume a: "\<not> res_Success (fst (executeTool (ex_ToolName e) (ex_Arguments e))) \<and>
    cached_entry cm (ex_ToolName e) (ex_ServerName e) (keyToString (execution_key sprint e)) = None"
  then have eq: "ExecuteWithCache sprint (RealManager executeTool) t_get t_set cm e =
           (executeTool (ex_ToolName e) (ex_Arguments e),
            put_cache cm (ex_ToolName e) (ex_ServerName e)
              (fst (GetCache cm (ex_ToolName e) (ex_ServerName e))))"
    by (simp add: ExecuteWithCache_failure)
  show "fst (ExecuteWithCache sprint (RealManager executeTool) t_get t_set cm e) =
        executeTool (ex_ToolName e) (ex_Arguments e)"
    by (simp add: eq)
  show "cached_entry (snd (ExecuteWithCache sprint (RealManager executeTool) t_get t_set cm e))
        (ex_ToolName e) (ex_ServerName e) (keyToString (execution_key sprint e)) = None"
    using a by (simp add: eq GetCache_lookup)
next
  assume "all_cached_successful cm"
  then show "all_cached_successful (snd (ExecuteWithCache sprint manager t_get t_set cm e))"
    by (rule ExecuteWithCache_keeps_success)
qed

lemma example_manager_empty: "cached_entry example_manager t s k = None"
  by (simp add: example_manager_def createRealMCPCacheManager_def cached_entry_def)

lemma example_manager_successful: "all_cached_successful example_manager"
  by (simp add: example_manager_def createRealMCPCacheManager_def all_cached_successful_def)

text \<open>A failing tool run through a fresh manager: the failure comes back and nothing is
  stored.\<close>

theorem C2_failure_is_not_cached_witness:
  "\<not> res_Success (fst (failing_tool (ex_ToolName example_execution) (ex_Arguments example_execution))) \<and>
   cached_entry example_manager (ex_ToolName example_execution) (ex_ServerName example_execution)
     (keyToString (execution_key id example_execution)) = None \<and>
   all_cached_successful example_manager \<and>
   fst (ExecuteWithCache id (RealManager failing_tool) 0 1 example_manager example_execution) =
     (example_failure, None) \<and>
   cached_entry (snd (ExecuteWithCache id (RealManager failing_tool) 0 1 example_manager example_execution))
     (ex_ToolName example_execution) (ex_ServerName example_execution)
     (keyToString (execution_key id example_execution)) = None \<and>
   all_cached_successful
     (snd (ExecuteWithCache id (RealManager failing_tool) 0 1 example_manager example_execution))"
proof -
  have h1: "\<not> res_Success (fst (failing_tool (ex_ToolName example_execution) (ex_Arguments example_execution)))"
    by (simp add: failing_tool_def example_failure_def)
  have h2: "cached_entry example_manager (ex_ToolName example_execution) (ex_ServerName example_execution)
     (keyToString (execution_key id example_execution)) = None"
    by (rule example_manager_empty)
  have h3: "failing_tool (ex_ToolName example_execution) (ex_Arguments example_execution) = (example_failure, None)"
    by (simp add: failing_tool_def)
  show ?thesis
    using h1 h2 h3 example_manager_successful
      C2_failure_is_not_cached [of failing_tool example_execution example_manager id 0 1
        "RealManager failing_tool"]
    by simp
qed

lemma cache_stats_of_zero:
  "st_HitCount (cache_stats_of cm k) = 0" "st_MissCount (cache_stats_of cm k) = 0"
  by (simp_all add: cache_stats_of_def realMCPCache_Stats_def split: option.split)

lemma cache_stats_of_TotalKeys:
  "st_TotalKeys (cache_stats_of cm k) =
     (case fmlookup (caches cm) k of None \<Rightarrow> 0 | Some cache \<Rightarrow> realMCPCache_Size cache)"
  by (simp add: cache_stats_of_def realMCPCache_Stats_def realMCPCache_Size_def
      newRealMCPCache_def split: option.split)

lemma GetGlobalStats_zero:
  "st_HitCount (GetGlobalStats cm) = 0 \<and> st_MissCount (GetGlobalStats cm) = 0 \<and>
   st_HitRate (GetGlobalStats cm) = 0"
  by (simp add: GetGlobalStats_def cache_stats_of_zero)

lemma GetGlobalStats_TotalKeys:
  "st_TotalKeys (GetGlobalStats cm) =
     (\<Sum>k\<in>fmdom' (caches cm). case fmlookup (caches cm) k of
                                   None \<Rightarrow> 0 | Some cache \<Rightarrow> realMCPCache_Size cache)"
  by (simp add: GetGlobalStats_def Let_def cache_stats_of_TotalKeys)

text \<open>
  C4, as the code has it. The statistics of a cache report zero hits and zero misses,
  and nothing counts a hit or a miss. So after any sequence of executions through one
  manager, with \<open>n\<close> hits and \<open>m\<close> misses, \<open>GetGlobalStats\<close> returns \<open>HitCount = 0\<close>,
  \<open>MissCount = 0\<close> and \<open>HitRate = 0\<close>; \<open>TotalKeys\<close> is the sum of the numbers of entries
  of the caches.
\<close>

theorem C4_global_stats_count_nothing:
  "(run_executions sprint manager cm xs = (n, m, cm') \<longrightarrow>
      st_HitCount (GetGlobalStats cm') = 0 \<and> st_MissCount (GetGlobalStats cm') = 0 \<and>
      st_HitRate (GetGlobalStats cm') = 0) \<and>
   st_TotalKeys (GetGlobalStats cm) =
     (\<Sum>k\<in>fmdom' (caches cm). case fmlookup (caches cm) k of
                                   None \<Rightarrow> 0 | Some cache \<Rightarrow> realMCPCache_Size cache)"
  by (simp add: GetGlobalStats_zero GetGlobalStats_TotalKeys)

lemma example_first_miss: "\<not> cache_hit id 0 example_manager example_execution"
  by (simp add: cache_hit_def example_manager_empty)

lemma example_after_miss_eq:
  "example_after_miss =
     put_cache example_manager ''search'' ''docker-mcp''
       (realMCPCache_Set 1 newRealMCPCache (execution_key id example_execution) example_result
          (cfg_DefaultTTL DefaultMCPCacheConfig))"
  by (simp add: example_after_miss_def ExecuteWithCache_unfold after_lookup_def
      example_manager_def createRealMCPCacheManager_def GetCache_def Get_absent
      newRealMCPCache_def working_tool_def example_result_def example_execution_def
      DefaultMCPCacheConfig_def)

lemma example_after_miss_entry:
  "cached_entry example_after_miss ''search'' ''docker-mcp''
     (keyToString (execution_key id example_execution)) =
   Some \<lparr> cr_Key = execution_key id example_execution, cr_Result = example_result,
          cr_Timestamp = 1, cr_TTL = 15 * time_Minute, cr_AccessCount = 0 \<rparr>"
  by (simp add: example_after_miss_eq realMCPCache_Set_def DefaultMCPCacheConfig_def)

lemma example_second_hit: "cache_hit id 2 example_after_miss example_execution"
proof -
  have "cfg_Enabled (config example_after_miss)"
    by (simp add: example_after_miss_eq example_manager_def createRealMCPCacheManager_def
        DefaultMCPCacheConfig_def)
  moreover have "ex_ToolName example_execution = ''search''"
    and "ex_ServerName example_execution = ''docker-mcp''"
    by (simp_all add: example_execution_def)
  ultimately show ?thesis
    by (simp add: cache_hit_def example_after_miss_entry time_Minute_def)
qed

lemma example_run:
  "run_executions id (RealManager working_tool) example_manager
     [(0, 1, example_execution), (2, 3, example_execution)] =
   (1, 1, snd (ExecuteWithCache id (RealManager working_tool) 2 3 example_after_miss
                 example_execution))"
  using example_first_miss example_second_hit
  by (simp add: example_after_miss_def)

text \<open>The same successful execution run twice through a fresh manager: one miss, then
  one hit, and a hit rate of 0.\<close>

theorem C4_global_stats_count_nothing_witness:
  "run_executions id (RealManager working_tool) example_manager
     [(0, 1, example_execution), (2, 3, example_execution)] =
   (1, 1, snd (ExecuteWithCache id (RealManager working_tool) 2 3 example_after_miss
                 example_execution)) \<and>
   st_HitCount (GetGlobalStats (snd (ExecuteWithCache id (RealManager working_tool) 2 3
      example_after_miss example_execution))) = 0 \<and>
   st_MissCount (GetGlobalStats (snd (ExecuteWithCache id (RealManager working_tool) 2 3
      example_after_miss example_execution))) = 0 \<and>
   st_HitRate (GetGlobalStats (snd (ExecuteWithCache id (RealManager working_tool) 2 3
      example_after_miss example_execution))) = 0"
  using example_run
    C4_global_stats_count_nothing [of id "RealManager working_tool" example_manager
      "[(0, 1, example_execution), (2, 3, example_execution)]" 1 1
      "snd (ExecuteWithCache id (RealManager working_tool) 2 3 example_after_miss
             example_execution)"]
  by simp

text \<open>
  C4, as the claim has it, fails: after one hit and one miss the hit rate would be
  \<open>1 / (1 + 1)\<close>; it is 0.
\<close>

theorem C4_hit_rate_zero_after_hit_and_miss:
  "run_executions id (RealManager working_tool) example_manager
     [(0, 1, example_execution), (2, 3, example_execution)] =
   (1, 1, snd (ExecuteWithCache id (RealManager working_tool) 2 3 example_after_miss
                 example_execution)) \<and>
   st_HitRate (GetGlobalStats (snd (ExecuteWithCache id (RealManager working_tool) 2 3
      example_after_miss example_execution))) \<noteq> 1 / (1 + 1)"
  using example_run by (simp add: GetGlobalStats_zero)

lemma ExecuteWithCache_stores:
  assumes en: "cfg_Enabled (config cm)"
    and miss: "\<not> cache_hit sprint t_get cm e"
    and ex: "executeTool (ex_ToolName e) (ex_Arguments e) = (result, None)"
    and ok: "res_Success result"
  shows "cached_entry (snd (ExecuteWithCache sprint (RealManager executeTool) t_get t_set cm e))
           (ex_ToolName e) (ex_ServerName e) (keyToString (execution_key sprint e)) =
         Some \<lparr> cr_Key = execution_key sprint e, cr_Result = result, cr_Timestamp = t_set,
                cr_TTL = cfg_DefaultTTL (config cm), cr_AccessCount = 0 \<rparr>"
proof -
  obtain x c1 where al: "after_lookup sprint t_get cm e = (Inl x, c1)"
    using after_lookup_miss [OF miss]
    by (cases "after_lookup sprint t_get cm e") (auto simp: isl_def)
  show ?thesis
    by (simp add: ExecuteWithCache_unfold al ex en ok realMCPCache_Set_def)
qed

lemma after_lookup_config:
  "cfg_Enabled c' = cfg_Enabled (config cm) \<Longrightarrow>
   after_lookup sprint t_get (cm\<lparr>config := c'\<rparr>) e = after_lookup sprint t_get cm e"
  by (simp add: after_lookup_def GetCache_def split: option.split)

lemma put_cache_config:
  "put_cache (cm\<lparr>config := c'\<rparr>) t s c = (put_cache cm t s c)\<lparr>config := c'\<rparr>"
  by (simp add: put_cache_def)

lemma ExecuteWithCache_config:
  assumes "cfg_Enabled c' = cfg_Enabled (config cm)"
    and "cfg_DefaultTTL c' = cfg_DefaultTTL (config cm)"
  shows "ExecuteWithCache sprint manager t_get t_set (cm\<lparr>config := c'\<rparr>) e =
           (fst (ExecuteWithCache sprint manager t_get t_set cm e),
            (snd (ExecuteWithCache sprint manager t_get t_set cm e))\<lparr>config := c'\<rparr>)"
  by (auto simp add: ExecuteWithCache_unfold after_lookup_config assms put_cache_config
      split: prod.split sum.split manager.split option.split)

text \<open>
  C5, as the code has it. When \<open>ExecuteWithCache\<close> stores a successful result (caching
  is enabled, the lookup did not hit, the execution returned no error and
  \<open>Success = true\<close>), the entry is stored with the configured default TTL. The per-tool
  table \<open>ToolTTLs\<close> is not read: replacing it by any other table changes neither what
  \<open>ExecuteWithCache\<close> returns nor the caches it leaves.
\<close>

theorem C5_stored_ttl_is_default:
  "(cfg_Enabled (config cm) \<and> \<not> cache_hit sprint t_get cm e \<and>
    executeTool (ex_ToolName e) (ex_Arguments e) = (result, None) \<and> res_Success result \<longrightarrow>
      cached_entry (snd (ExecuteWithCache sprint (RealManager executeTool) t_get t_set cm e))
        (ex_ToolName e) (ex_ServerName e) (keyToString (execution_key sprint e)) =
      Some \<lparr> cr_Key = execution_key sprint e, cr_Result = result, cr_Timestamp = t_set,
             cr_TTL = cfg_DefaultTTL (config cm), cr_AccessCount = 0 \<rparr>) \<and>
   fst (ExecuteWithCache sprint manager t_get t_set
          (cm\<lparr>config := (config cm)\<lparr>cfg_ToolTTLs := ttls\<rparr>\<rparr>) e) =
     fst (ExecuteWithCache sprint manager t_get t_set cm e) \<and>
   caches (snd (ExecuteWithCache sprint manager t_get t_set
                  (cm\<lparr>config := (config cm)\<lparr>cfg_ToolTTLs := ttls\<rparr>\<rparr>) e)) =
     caches (snd (ExecuteWithCache sprint manager t_get t_set cm e))"
  by (simp add: ExecuteWithCache_stores ExecuteWithCache_config)

lemma example_manager_config: "config example_manager = DefaultMCPCacheConfig"
  by (simp add: example_manager_def createRealMCPCacheManager_def)

lemma example_web_search_miss: "\<not> cache_hit id 0 example_manager example_web_search"
  by (simp add: cache_hit_def example_manager_empty)

text \<open>With the default configuration an execution of \<open>web_search\<close> is stored for the
  default 15 minutes.\<close>

theorem C5_stored_ttl_is_default_witness:
  "cfg_Enabled (config example_manager) \<and>
   \<not> cache_hit id 0 example_manager example_web_search \<and>
   working_tool (ex_ToolName example_web_search) (ex_Arguments example_web_search) =
     (example_result, None) \<and>
   res_Success example_result \<and>
   cached_entry (snd (ExecuteWithCache id (RealManager working_tool) 0 1 example_manager
                        example_web_search))
     (ex_ToolName example_web_search) (ex_ServerName example_web_search)
     (keyToString (execution_key id example_web_search)) =
   Some \<lparr> cr_Key = execution_key id example_web_search, cr_Result = example_result,
          cr_Timestamp = 1, cr_TTL = 15 * time_Minute, cr_AccessCount = 0 \<rparr>"
proof -
  have h1: "cfg_Enabled (config example_manager)"
    and h5: "cfg_DefaultTTL (config example_manager) = 15 * time_Minute"
    by (simp_all add: example_manager_config DefaultMCPCacheConfig_def)
  have h3: "working_tool (ex_ToolName example_web_search) (ex_Arguments example_web_search) =
     (example_result, None)"
    by (simp add: working_tool_def)
  have h4: "res_Success example_result"
    by (simp add: example_result_def)
  show ?thesis
    using h1 h3 h4 h5 example_web_search_miss
      C5_stored_ttl_is_default [of example_manager id 0 example_web_search working_tool
        example_result 1]
    by simp
qed

text \<open>
  C5, as the claim has it, fails: the default configuration has an entry of 5 minutes
  for \<open>web_search\<close> in \<open>ToolTTLs\<close>, and a result of \<open>web_search\<close> is stored with the
  default TTL of 15 minutes.
\<close>

theorem C5_tool_ttl_override_not_used:
  "map_of (cfg_ToolTTLs (config example_manager)) (ex_ToolName example_web_search) =
     Some (5 * time_Minute) \<and>
   cfg_DefaultTTL (config example_manager) = 15 * time_Minute \<and>
   map_option cr_TTL
     (cached_entry (snd (ExecuteWithCache id (RealManager working_tool) 0 1 example_manager
                           example_web_search))
        (ex_ToolName example_web_search) (ex_ServerName example_web_search)
        (keyToString (execution_key id example_web_search))) =
   Some (15 * time_Minute) \<and>
   (15 * time_Minute \<noteq> 5 * time_Minute)"
proof -
  have h1: "cfg_Enabled (config example_manager)"
    and h5: "cfg_DefaultTTL (config example_manager) = 15 * time_Minute"
    and h6: "map_of (cfg_ToolTTLs (config example_manager)) (ex_ToolName example_web_search) =
     Some (5 * time_Minute)"
    by (simp_all add: example_manager_config DefaultMCPCacheConfig_def example_web_search_def)
  have h3: "working_tool (ex_ToolName example_web_search) (ex_Arguments example_web_search) =
     (example_result, None)"
    by (simp add: working_tool_def)
  have h4: "res_Success example_result"
    by (simp add: example_result_def)
  have h7: "15 * time_Minute \<noteq> 5 * time_Minute"
    by (simp add: time_Minute_def)
  show ?thesis
    using h1 h3 h4 h5 h6 h7 example_web_search_miss
      ExecuteWithCache_stores [of example_manager id 0 example_web_search working_tool
        example_result 1]
    by simp
qed



section \<open>Properties of the connection manager\<close>


lemma servers_Connect: "mgr_Servers (snd (realMCPManager_Connect net m name)) = mgr_Servers m"
  by (simp add: realMCPManager_Connect_def split: option.split)












section \<open>Properties of the tool call parser\<close>

text \<open>Where \<open>strings.Index\<close> finds the separator, and what \<open>strings.Split\<close> gives for a
  text with one marker or none.\<close>

lemma strings_Index_first:
  "m \<le> length s \<Longrightarrow> strings_HasPrefix (drop m s) sep \<Longrightarrow>
   (\<forall>i<m. \<not> strings_HasPrefix (drop i s) sep) \<Longrightarrow> strings_Index s sep = Some m"
proof (induction s arbitrary: m)
  case Nil
  then show ?case by (simp add: strings_HasPrefix_def)
next
  case (Cons c cs)
  show ?case
  proof (cases m)
    case 0
    with Cons.prems show ?thesis by simp
  next
    case (Suc m')
    from Cons.prems(3) Suc have no0: "\<not> strings_HasPrefix (c # cs) sep"
      by (metis drop0 zero_less_Suc)
    have "strings_Index cs sep = Some m'"
    proof (rule Cons.IH)
      show "m' \<le> length cs" using Cons.prems(1) Suc by simp
      show "strings_HasPrefix (drop m' cs) sep" using Cons.prems(2) Suc by simp
      show "\<forall>i<m'. \<not> strings_HasPrefix (drop i cs) sep"
      proof (intro allI impI)
        fix i assume "i < m'"
        then have "Suc i < m" using Suc by simp
        with Cons.prems(3) have "\<not> strings_HasPrefix (drop (Suc i) (c # cs)) sep" by blast
        then show "\<not> strings_HasPrefix (drop i cs) sep" by simp
      qed
    qed
    with no0 Suc show ?thesis by simp
  qed
qed

lemma strings_Index_found:
  "i \<le> length s \<Longrightarrow> strings_HasPrefix (drop i s) sep \<Longrightarrow> strings_Index s sep \<noteq> None"
proof (induction s arbitrary: i)
  case Nil
  then show ?case by (simp add: strings_HasPrefix_def)
next
  case (Cons c cs)
  show ?case
  proof (cases i)
    case 0
    with Cons.prems show ?thesis by simp
  next
    case (Suc i')
    with Cons.prems have "strings_Index cs sep \<noteq> None"
      using Cons.IH [of i'] by simp
    then show ?thesis by simp
  qed
qed

lemma sep_not_inside:
  assumes u: "u \<noteq> []" and pre: "strings_HasPrefix (u @ sep @ rest) sep"
    and nb: "\<forall>k. 0 < k \<and> k < length sep \<longrightarrow> sep ! k \<noteq> sep ! 0" and sep: "sep \<noteq> []"
  shows "strings_HasPrefix u sep"
proof (cases "length sep \<le> length u")
  case True
  with pre show ?thesis by (simp add: strings_HasPrefix_def)
next
  case False
  then have short: "length u < length sep" by simp
  from pre have t: "take (length sep) (u @ sep @ rest) = sep"
    by (simp only: strings_HasPrefix_def)
  have "(take (length sep) (u @ sep @ rest)) ! length u = (u @ sep @ rest) ! length u"
    using short by (simp only: nth_take)
  also have "\<dots> = (sep @ rest) ! 0" by (simp add: nth_append)
  also have "\<dots> = sep ! 0" using sep by (simp add: nth_append)
  finally have "sep ! length u = sep ! 0" by (simp only: t)
  moreover have "0 < length u" using u by simp
  ultimately show ?thesis using nb short by blast
qed

lemma Index_sep:
  assumes "\<not> strings_Contains pre sep"
    and nb: "\<forall>k. 0 < k \<and> k < length sep \<longrightarrow> sep ! k \<noteq> sep ! 0" and sep: "sep \<noteq> []"
  shows "strings_Index (pre @ sep @ rest) sep = Some (length pre)"
proof (rule strings_Index_first)
  show "length pre \<le> length (pre @ sep @ rest)" by simp
  show "strings_HasPrefix (drop (length pre) (pre @ sep @ rest)) sep"
    by (simp add: strings_HasPrefix_def)
  show "\<forall>i<length pre. \<not> strings_HasPrefix (drop i (pre @ sep @ rest)) sep"
  proof (intro allI impI notI)
    fix i assume i: "i < length pre"
      and h: "strings_HasPrefix (drop i (pre @ sep @ rest)) sep"
    from i have "drop i (pre @ sep @ rest) = drop i pre @ sep @ rest"
      and "drop i pre \<noteq> []" by simp_all
    with h have "strings_HasPrefix (drop i pre) sep"
      using sep_not_inside [of "drop i pre" sep rest] nb sep by simp
    then have "strings_Index pre sep \<noteq> None"
      using i strings_Index_found [of i pre sep] by simp
    with assms(1) show False by (simp add: strings_Contains_def)
  qed
qed

lemma Split_one_sep:
  assumes "\<not> strings_Contains pre sep" and "\<not> strings_Contains rest sep"
    and nb: "\<forall>k. 0 < k \<and> k < length sep \<longrightarrow> sep ! k \<noteq> sep ! 0" and sep: "sep \<noteq> []"
  shows "strings_Split (pre @ sep @ rest) sep = [pre, rest]"
proof -
  have r: "strings_Split rest sep = [rest]"
    using assms(2) sep by (simp add: strings_Split.simps [of rest] strings_Contains_def)
  show ?thesis
    using Index_sep [OF assms(1) nb sep, of rest] r sep
    by (simp add: strings_Split.simps [of "pre @ sep @ rest"])
qed

lemma marker_no_border:
  "\<forall>k. 0 < k \<and> k < length marker \<longrightarrow> marker ! k \<noteq> marker ! 0"
proof (intro allI impI)
  fix k assume "0 < k \<and> k < length marker"
  then have "k = 1 \<or> k = 2 \<or> k = 3 \<or> k = 4 \<or> k = 5 \<or> k = 6 \<or> k = 7 \<or> k = 8"
    by (simp add: marker_def) arith
  then show "marker ! k \<noteq> marker ! 0" by (elim disjE) (simp_all add: marker_def)
qed

lemma marker_not_empty: "marker \<noteq> []"
  by (simp add: marker_def)

lemma Split_one_marker:
  "\<not> strings_Contains pre marker \<Longrightarrow> \<not> strings_Contains rest marker \<Longrightarrow>
   strings_Split (pre @ marker @ rest) marker = [pre, rest]"
  by (rule Split_one_sep [OF _ _ marker_no_border marker_not_empty])

lemma Split_no_marker:
  "\<not> strings_Contains content marker \<Longrightarrow> strings_Split content marker = [content]"
  by (simp add: strings_Split.simps [of content] strings_Contains_def marker_not_empty)

lemma braces_Cons:
  "d + int (open_braces (c # p)) - int (close_braces (c # p)) =
   (d + brace_step c) + int (open_braces p) - int (close_braces p)"
  by (simp add: open_braces_def close_braces_def brace_step_def)

lemma braces_single: "d + int (open_braces [c]) - int (close_braces [c]) = d + brace_step c"
  by (simp add: open_braces_def close_braces_def brace_step_def)

lemma scan_braces_step:
  "d + brace_step c \<noteq> 0 \<Longrightarrow>
   scan_braces d j (c # r) = scan_braces (d + brace_step c) (Suc j) r"
  by (simp add: brace_step_def split: if_splits)

lemma prefixes_shift:
  assumes "\<forall>p \<in> set (prefixes (c # cs)). p \<noteq> [] \<longrightarrow>
      d + int (open_braces p) - int (close_braces p) \<noteq> 0"
  shows "d + brace_step c \<noteq> 0"
    and "\<forall>p \<in> set (prefixes cs). p \<noteq> [] \<longrightarrow>
      (d + brace_step c) + int (open_braces p) - int (close_braces p) \<noteq> 0"
proof -
  have "[c] \<in> set (prefixes (c # cs))" by simp
  with assms have "d + int (open_braces [c]) - int (close_braces [c]) \<noteq> 0" by blast
  then show "d + brace_step c \<noteq> 0" by (simp add: braces_single)
  show "\<forall>p \<in> set (prefixes cs). p \<noteq> [] \<longrightarrow>
      (d + brace_step c) + int (open_braces p) - int (close_braces p) \<noteq> 0"
  proof (intro ballI impI)
    fix p assume "p \<in> set (prefixes cs)" and "p \<noteq> []"
    then have "c # p \<in> set (prefixes (c # cs))" by simp
    with assms have "d + int (open_braces (c # p)) - int (close_braces (c # p)) \<noteq> 0" by blast
    then show "(d + brace_step c) + int (open_braces p) - int (close_braces p) \<noteq> 0"
      by (simp add: braces_Cons)
  qed
qed

lemma scan_braces_never:
  "(\<forall>p \<in> set (prefixes seg). p \<noteq> [] \<longrightarrow>
      d + int (open_braces p) - int (close_braces p) \<noteq> 0) \<Longrightarrow>
   scan_braces d j seg = -1"
proof (induction seg arbitrary: d j)
  case Nil
  then show ?case by simp
next
  case (Cons c cs)
  note sh = prefixes_shift [OF Cons.prems]
  have "scan_braces d j (c # cs) = scan_braces (d + brace_step c) (Suc j) cs"
    using sh(1) by (rule scan_braces_step)
  also have "\<dots> = -1"
    using sh(2) by (rule Cons.IH)
  finally show ?case .
qed

lemma scan_braces_closing:
  "(\<forall>p \<in> set (prefixes body). p \<noteq> [] \<longrightarrow>
      d + int (open_braces p) - int (close_braces p) \<noteq> 0) \<Longrightarrow>
   d + int (open_braces body) - int (close_braces body) = 1 \<Longrightarrow>
   scan_braces d j (body @ CHR ''}'' # post) = int (j + length body)"
proof (induction body arbitrary: d j)
  case Nil
  then show ?case by (simp add: open_braces_def close_braces_def)
next
  case (Cons c cs)
  note sh = prefixes_shift [OF Cons.prems(1)]
  have total: "(d + brace_step c) + int (open_braces cs) - int (close_braces cs) = 1"
    using Cons.prems(2) by (simp only: braces_Cons)
  have "scan_braces d j ((c # cs) @ CHR ''}'' # post) =
      scan_braces (d + brace_step c) (Suc j) (cs @ CHR ''}'' # post)"
    using sh(1) scan_braces_step [of d c j "cs @ CHR ''}'' # post"] by simp
  also have "\<dots> = int (Suc j + length cs)"
    using sh(2) total by (rule Cons.IH)
  finally show ?case by simp
qed

lemma never_closed_scan: "never_closed seg \<Longrightarrow> scan_braces 0 0 seg = -1"
proof (rule scan_braces_never)
  assume "never_closed seg"
  then show "\<forall>p \<in> set (prefixes seg). p \<noteq> [] \<longrightarrow>
      0 + int (open_braces p) - int (close_braces p) \<noteq> 0"
    by (auto simp add: never_closed_def)
qed

lemma object_text_scan:
  assumes "object_text obj"
  shows "scan_braces 0 0 (obj @ post) = int (length obj) - 1"
    and "strings_HasPrefix (obj @ post) ''{''"
    and "1 < length obj"
proof -
  from assms have ne: "obj \<noteq> []" and l: "last obj = CHR ''}''" and b: "butlast obj \<noteq> []"
    and nc: "never_closed (butlast obj)"
    and eq: "open_braces (butlast obj) = close_braces (butlast obj) + 1"
    by (simp_all add: object_text_def)
  have obj: "obj = butlast obj @ [CHR ''}'']"
    using ne l by (metis append_butlast_last_id)
  have "scan_braces 0 0 (butlast obj @ CHR ''}'' # post) = int (0 + length (butlast obj))"
  proof (rule scan_braces_closing)
    show "\<forall>p \<in> set (prefixes (butlast obj)). p \<noteq> [] \<longrightarrow>
      0 + int (open_braces p) - int (close_braces p) \<noteq> 0"
      using nc by (auto simp add: never_closed_def)
    show "0 + int (open_braces (butlast obj)) - int (close_braces (butlast obj)) = 1"
      using eq by simp
  qed
  moreover have "obj @ post = butlast obj @ CHR ''}'' # post"
    using obj by (metis append_Cons append_Nil append_assoc)
  moreover have "int (length (butlast obj)) = int (length obj) - 1"
    using ne by (simp add: of_nat_diff Suc_leI)
  ultimately show "scan_braces 0 0 (obj @ post) = int (length obj) - 1"
    by (simp only: add_0)
  show "1 < length obj"
    using b ne by (cases obj) auto
  obtain c cs where bl: "butlast obj = c # cs"
    using b by (cases "butlast obj") auto
  have "[c] \<in> set (prefixes (butlast obj))"
    by (simp add: bl)
  with nc have "close_braces [c] < open_braces [c]"
    by (auto simp add: never_closed_def)
  then have "c = CHR ''{''"
    by (simp add: open_braces_def close_braces_def split: if_splits)
  with bl obj have "obj = CHR ''{'' # cs @ [CHR ''}'']"
    by simp
  then obtain r where "obj = CHR ''{'' # r" by blast
  then show "strings_HasPrefix (obj @ post) ''{''"
    by (simp add: strings_HasPrefix_def)
qed

lemma parse_part_object:
  assumes ot: "object_text obj" and dec: "strict obj = Some m" and ne: "m \<noteq> []"
  shows "parse_part strict (obj @ post) toolCalls = toolCalls @ [m]"
proof -
  note sc1 = object_text_scan(1) [OF ot, of post]
    and sc2 = object_text_scan(2) [OF ot, of post]
    and sc3 = object_text_scan(3) [OF ot]
  have pos: "scan_braces 0 0 (obj @ post) > 0"
    using sc1 sc3 by simp
  have "nat (scan_braces 0 0 (obj @ post) + 1) = length obj"
    using sc1 by simp
  then have tk: "take (nat (scan_braces 0 0 (obj @ post) + 1)) (obj @ post) = obj"
    by simp
  have js: "ParseToolCallJSON strict obj = m"
    using dec by (simp add: ParseToolCallJSON.simps [of strict obj])
  show ?thesis
    unfolding parse_part_def tk js using sc2 pos ne by simp
qed

lemma parse_part_never_closed:
  "never_closed seg \<Longrightarrow> parse_part strict seg toolCalls = toolCalls"
  by (simp add: parse_part_def never_closed_scan)

text \<open>
  C7. A text \<open>pre @ marker @ obj @ post\<close> with one marker, followed at once by an
  object text \<open>obj\<close> that the strict decoder decodes into a map with \<open>name = "search"\<close>
  and \<open>args = {"query": "x"}\<close>, gives exactly that one invocation. A text with one
  marker followed by a segment whose opening brace is never closed gives no invocation.
  A text without the marker gives no invocation. \<open>ParseLLMToolCalls\<close> is a total
  function: it raises nothing.
\<close>

theorem C7_ParseLLMToolCalls_marked_calls_only:
  "(\<not> strings_Contains pre marker \<and> \<not> strings_Contains (obj @ post) marker \<and>
    object_text obj \<and> strict obj = Some m \<and>
    map_of m ''name'' = Some (JString ''search'') \<and> map_of m ''args'' = Some (JObject a) \<and>
    map_of a ''query'' = Some (JString ''x'')
    \<longrightarrow> ParseLLMToolCalls strict (pre @ marker @ obj @ post) = [m]) \<and>
   (\<not> strings_Contains pre marker \<and> \<not> strings_Contains seg marker \<and> never_closed seg
    \<longrightarrow> ParseLLMToolCalls strict (pre @ marker @ seg) = []) \<and>
   (\<not> strings_Contains content marker \<longrightarrow> ParseLLMToolCalls strict content = [])"
proof (intro conjI impI)
  assume a: "\<not> strings_Contains pre marker \<and> \<not> strings_Contains (obj @ post) marker \<and>
    object_text obj \<and> strict obj = Some m \<and>
    map_of m ''name'' = Some (JString ''search'') \<and> map_of m ''args'' = Some (JObject a) \<and>
    map_of a ''query'' = Some (JString ''x'')"
  then have sp: "strings_Split (pre @ marker @ obj @ post) marker = [pre, obj @ post]"
    using Split_one_marker [of pre "obj @ post"] by simp
  from a have "m \<noteq> []" by auto
  with a have "parse_part strict (obj @ post) [] = [] @ [m]"
    using parse_part_object [of obj strict m post "[]"] by simp
  then show "ParseLLMToolCalls strict (pre @ marker @ obj @ post) = [m]"
    by (simp add: ParseLLMToolCalls_def sp)
next
  assume a: "\<not> strings_Contains pre marker \<and> \<not> strings_Contains seg marker \<and> never_closed seg"
  then have sp: "strings_Split (pre @ marker @ seg) marker = [pre, seg]"
    using Split_one_marker [of pre seg] by simp
  show "ParseLLMToolCalls strict (pre @ marker @ seg) = []"
    using a by (simp add: ParseLLMToolCalls_def sp parse_part_never_closed)
next
  assume "\<not> strings_Contains content marker"
  then show "ParseLLMToolCalls strict content = []"
    by (simp add: ParseLLMToolCalls_def Split_no_marker)
qed

lemma example_pre_no_marker: "\<not> strings_Contains ''... '' marker"
  by code_simp

lemma example_rest_no_marker: "\<not> strings_Contains (search_call_text @ '' ...'') marker"
  by code_simp

lemma example_object_text: "object_text search_call_text"
  by code_simp

lemma example_empty_no_marker: "\<not> strings_Contains [] marker"
  by code_simp

lemma example_seg_no_marker: "\<not> strings_Contains ''{not json at all'' marker"
  by code_simp

lemma example_seg_never_closed: "never_closed ''{not json at all''"
  by code_simp

lemma example_plain_no_marker: "\<not> strings_Contains ''plain text, no marker'' marker"
  by code_simp

text \<open>The three texts of the specification: the marked call between dots, the marker
  followed by \<open>{not json at all\<close>, and a plain text.\<close>

theorem C7_ParseLLMToolCalls_marked_calls_only_witness:
  "\<not> strings_Contains ''... '' marker \<and>
   \<not> strings_Contains (search_call_text @ '' ...'') marker \<and>
   object_text search_call_text \<and>
   example_strict search_call_text = Some search_call \<and>
   map_of search_call ''name'' = Some (JString ''search'') \<and>
   map_of search_call ''args'' = Some (JObject [(''query'', JString ''x'')]) \<and>
   map_of [(''query'', JString ''x'')] ''query'' = Some (JString ''x'') \<and>
   \<not> strings_Contains [] marker \<and>
   \<not> strings_Contains ''{not json at all'' marker \<and>
   never_closed ''{not json at all'' \<and>
   \<not> strings_Contains ''plain text, no marker'' marker \<and>
   ParseLLMToolCalls example_strict (''... '' @ marker @ search_call_text @ '' ...'') =
     [search_call] \<and>
   ParseLLMToolCalls example_strict ([] @ marker @ ''{not json at all'') = [] \<and>
   ParseLLMToolCalls example_strict ''plain text, no marker'' = []"
proof -
  have h4: "example_strict search_call_text = Some search_call"
    by (simp add: example_strict_def)
  have h5: "map_of search_call ''name'' = Some (JString ''search'')"
    and h6: "map_of search_call ''args'' = Some (JObject [(''query'', JString ''x'')])"
    by (simp_all add: search_call_def)
  have h7: "map_of [(''query'', JString ''x'')] ''query'' = Some (JString ''x'')"
    by simp
  show ?thesis
    using example_pre_no_marker example_rest_no_marker example_object_text h4 h5 h6 h7
      example_empty_no_marker example_seg_no_marker example_seg_never_closed
      example_plain_no_marker
      C7_ParseLLMToolCalls_marked_calls_only [of "''... ''" search_call_text "'' ...''"
        example_strict search_call "[(''query'', JString ''x'')]" "''{not json at all''"
        "''plain text, no marker''"]
      C7_ParseLLMToolCalls_marked_calls_only [where pre = "[]" and seg = "''{not json at all''"
        and strict = example_strict]
    by simp
qed



section \<open>Properties of the fallback decoder\<close>





































end
